theory Spec2Isabelle
  imports Complex_Main "HOL-Library.Word"
begin

section \<open>The error channel\<close>

text \<open>
  Modelled from the spec: the header \<^verbatim>\<open>dsc_error.h\<close>, with the enumeration
  \<^verbatim>\<open>dsc_error_t\<close>, is not among the source files. The error kinds are the seven that
  section 7 of the specification lists.
\<close>

datatype dsc_error_t =
    DSC_ERROR_NONE
  | DSC_ERROR_INVALID_ARGUMENT
  | DSC_ERROR_OUT_OF_RANGE
  | DSC_ERROR_OUT_OF_MEMORY
  | DSC_ERROR_EMPTY_CONTAINER
  | DSC_ERROR_NOT_FOUND
  | DSC_ERROR_DUPLICATE_ITEM

text \<open>
  Modelled from the spec: the variable behind \<^verbatim>\<open>dsc_set_error\<close> is missing. It is the
  ``process-wide last-error slot, written by every operation, read by callers after
  each call''. The field \<open>writes\<close> is a ghost counter of the calls of
  \<^verbatim>\<open>dsc_set_error\<close>; no operation reads it.
\<close>

record error_channel =
  slot :: dsc_error_t
  writes :: nat

text \<open>
  Modelled from the spec: the body of \<^verbatim>\<open>dsc_set_error\<close> is missing. It overwrites the
  slot.
\<close>

definition dsc_set_error :: "dsc_error_t \<Rightarrow> error_channel \<Rightarrow> error_channel" where
  "dsc_set_error e ch = \<lparr>slot = e, writes = Suc (writes ch)\<rparr>"

section \<open>Memory\<close>

text \<open>
  A C \<^verbatim>\<open>int\<close> is a 32-bit word. A cell of a buffer holds a value or is indeterminate
  (\<open>None\<close>), as the cells of a fresh \<^verbatim>\<open>malloc\<close> block are. A pointer to a buffer is
  null, or points to an allocated block of cells, or is \<open>Wild\<close>: not null and not the
  address of a block (the content of a pointer field that was never assigned).

  What C leaves undefined is a value of type \<open>fault\<close>: an operation that reaches it
  stops there with \<open>Inl\<close>, and says nothing about what follows. Two points that C
  leaves to the implementation are faults as well, because what follows them depends on
  the platform: the rounding of an integer that a double cannot hold exactly
  (\<open>Double_not_exact\<close>), and a \<^verbatim>\<open>realloc\<close> of a block to size zero
  (\<open>Realloc_zero_size\<close>), which may free the block and is undefined from C23 on.
\<close>

type_synonym c_int = "32 word"
type_synonym cell = "c_int option"

datatype buffer_ptr = Null | Wild | Block "cell list"

datatype fault =
    Store_out_of_bounds nat
  | Load_out_of_bounds nat
  | Load_indeterminate nat
  | Invalid_pointer
  | Double_not_exact
  | Double_to_integer_overflow
  | Realloc_zero_size

definition load :: "buffer_ptr \<Rightarrow> nat \<Rightarrow> fault + cell" where
  "load p i =
     (case p of
        Block cells \<Rightarrow> (if i < length cells then Inr (cells ! i) else Inl (Load_out_of_bounds i))
      | _ \<Rightarrow> Inl Invalid_pointer)"

definition store :: "buffer_ptr \<Rightarrow> nat \<Rightarrow> cell \<Rightarrow> fault + buffer_ptr" where
  "store p i c =
     (case p of
        Block cells \<Rightarrow>
          (if i < length cells then Inr (Block (cells[i := c])) else Inl (Store_out_of_bounds i))
      | _ \<Rightarrow> Inl Invalid_pointer)"

text \<open>
  The allocator's answer is an input of every operation that allocates: \<open>ok\<close> says
  whether the request is granted. \<open>malloc\<close> gives a block of indeterminate cells;
  \<open>realloc\<close> keeps the cells of the old block that fit; \<open>free\<close> accepts null and
  blocks only. The sizes are counted in cells (\<^verbatim>\<open>sizeof(int)\<close> bytes each).
\<close>

definition malloc :: "bool \<Rightarrow> nat \<Rightarrow> buffer_ptr" where
  "malloc ok n = (if ok then Block (replicate n None) else Null)"

definition realloc :: "bool \<Rightarrow> buffer_ptr \<Rightarrow> nat \<Rightarrow> fault + buffer_ptr" where
  "realloc ok p n =
     (case p of
        Null \<Rightarrow> Inr (malloc ok n)
      | Wild \<Rightarrow> Inl Invalid_pointer
      | Block cells \<Rightarrow>
          (if n = 0 then Inl Realloc_zero_size
           else if ok then Inr (Block (take n cells @ replicate (n - length cells) None))
           else Inr Null))"

definition free :: "buffer_ptr \<Rightarrow> fault + unit" where
  "free p = (case p of Wild \<Rightarrow> Inl Invalid_pointer | _ \<Rightarrow> Inr ())"

definition memcpy :: "buffer_ptr \<Rightarrow> buffer_ptr \<Rightarrow> nat \<Rightarrow> fault + buffer_ptr" where
  "memcpy dst src n =
     (case (dst, src) of
        (Block d, Block s) \<Rightarrow>
          (if length s < n then Inl (Load_out_of_bounds (length s))
           else if length d < n then Inl (Store_out_of_bounds (length d))
           else Inr (Block (take n s @ drop n d)))
      | _ \<Rightarrow> Inl Invalid_pointer)"

definition SIZE_MAX :: nat where
  "SIZE_MAX = 2 ^ 64 - 1"

definition sizeof_int :: nat where
  "sizeof_int = 4"

text \<open>
  \<^verbatim>\<open>capacity * 1.5\<close> is a multiplication of doubles, converted back to the integer
  type by truncation. Below \<open>2 ^ 53\<close> the conversion to double and the product are
  exact, and the result is \<open>3 * c div 2\<close>. Where the product would need rounding the
  value depends on the platform, and where the truncated value does not fit the
  integer type the conversion is undefined: both are faults.
\<close>

definition times_1_5 :: "'a::len word \<Rightarrow> fault + 'a word" where
  "times_1_5 c =
     (if 2 ^ 53 \<le> 3 * unat c then Inl Double_not_exact
      else if 2 ^ LENGTH('a) \<le> 3 * unat c div 2 then Inl Double_to_integer_overflow
      else Inr (of_nat (3 * unat c div 2)))"

section \<open>The vector of \<^verbatim>\<open>struct dsc_vector_t\<close>\<close>

text \<open>
  The fields \<^verbatim>\<open>values\<close>, \<^verbatim>\<open>size\<close> and \<^verbatim>\<open>capacity\<close> of the struct, the last two of
  type \<^verbatim>\<open>size_t\<close>. A handle is a \<open>dsc_vector_t option\<close>, \<open>None\<close> for the null pointer;
  an operation returns the error channel and the struct behind the handle as it
  leaves them. \<^verbatim>\<open>DSC_VECTOR_INITIAL_CAPACITY\<close> is defined in a header that is not among
  the source files, and is a parameter of \<open>dsc_vector_create\<close>.
\<close>

record dsc_vector_t =
  vt_values :: buffer_ptr
  vt_size :: "64 word"
  vt_capacity :: "64 word"

definition dsc_vector_resize ::
  "bool \<Rightarrow> error_channel \<Rightarrow> dsc_vector_t \<Rightarrow> 64 word \<Rightarrow> fault + error_channel \<times> dsc_vector_t" where
  "dsc_vector_resize ok ch vector new_capacity =
     (if SIZE_MAX div sizeof_int < unat new_capacity
      then Inr (dsc_set_error DSC_ERROR_OUT_OF_MEMORY ch, vector)
      else
        (let new_values = malloc ok (unat new_capacity) in
         if new_values = Null
         then Inr (dsc_set_error DSC_ERROR_OUT_OF_MEMORY ch, vector)
         else if vt_values vector \<noteq> Null
         then
           (case memcpy new_values (vt_values vector) (unat (vt_size vector * 4) div 4) of
              Inl f \<Rightarrow> Inl f
            | Inr copied \<Rightarrow>
                (case free (vt_values vector) of
                   Inl f \<Rightarrow> Inl f
                 | Inr _ \<Rightarrow>
                     Inr (ch, vector\<lparr>vt_values := copied, vt_capacity := new_capacity\<rparr>)))
         else Inr (ch, vector\<lparr>vt_values := new_values, vt_capacity := new_capacity\<rparr>)))"

text \<open>
  The struct that \<^verbatim>\<open>dsc_vector_create\<close> allocates is not initialised, and
  \<^verbatim>\<open>dsc_vector_resize\<close> reads its \<^verbatim>\<open>values\<close> field before anything is assigned to it.
  \<open>zeroed\<close> says what the field holds then: null, or a wild pointer.
\<close>

definition dsc_vector_create ::
  "64 word \<Rightarrow> bool \<Rightarrow> bool \<Rightarrow> bool \<Rightarrow> error_channel
     \<Rightarrow> fault + error_channel \<times> dsc_vector_t option" where
  "dsc_vector_create DSC_VECTOR_INITIAL_CAPACITY ok_struct zeroed ok ch =
     (if \<not> ok_struct then Inr (dsc_set_error DSC_ERROR_OUT_OF_MEMORY ch, None)
      else
        (let new_vector = \<lparr>vt_values = (if zeroed then Null else Wild), vt_size = 0,
                            vt_capacity = DSC_VECTOR_INITIAL_CAPACITY\<rparr> in
         case dsc_vector_resize ok ch new_vector (vt_capacity new_vector) of
           Inl f \<Rightarrow> Inl f
         | Inr (ch1, v1) \<Rightarrow>
             (if vt_values v1 = Null
              then Inr (dsc_set_error DSC_ERROR_OUT_OF_MEMORY ch1, None)
              else Inr (dsc_set_error DSC_ERROR_NONE ch1, Some v1))))"

definition dsc_vector_free ::
  "error_channel \<Rightarrow> dsc_vector_t option \<Rightarrow> fault + error_channel" where
  "dsc_vector_free ch vector =
     (case vector of
        None \<Rightarrow> Inr (dsc_set_error DSC_ERROR_INVALID_ARGUMENT ch)
      | Some v \<Rightarrow>
          (case free (vt_values v) of
             Inl f \<Rightarrow> Inl f
           | Inr _ \<Rightarrow> Inr (dsc_set_error DSC_ERROR_NONE ch)))"

text \<open>Lines 104 to 106 of \<^verbatim>\<open>dsc_vector_push_back\<close>: the store and the increment.\<close>

definition push_back_store ::
  "error_channel \<Rightarrow> dsc_vector_t \<Rightarrow> c_int
     \<Rightarrow> fault + error_channel \<times> dsc_vector_t option" where
  "push_back_store ch v val =
     (case store (vt_values v) (unat (vt_size v)) (Some val) of
        Inl f \<Rightarrow> Inl f
      | Inr p \<Rightarrow>
          Inr (dsc_set_error DSC_ERROR_NONE ch,
               Some (v\<lparr>vt_values := p, vt_size := vt_size v + 1\<rparr>)))"

definition dsc_vector_push_back ::
  "bool \<Rightarrow> error_channel \<Rightarrow> dsc_vector_t option \<Rightarrow> c_int
     \<Rightarrow> fault + error_channel \<times> dsc_vector_t option" where
  "dsc_vector_push_back ok ch vector val =
     (case vector of
        None \<Rightarrow> Inr (dsc_set_error DSC_ERROR_INVALID_ARGUMENT ch, None)
      | Some v \<Rightarrow>
          (if vt_capacity v \<le> vt_size v
           then
             (case times_1_5 (vt_capacity v) of
                Inl f \<Rightarrow> Inl f
              | Inr new_capacity \<Rightarrow>
                  (case dsc_vector_resize ok ch v new_capacity of
                     Inl f \<Rightarrow> Inl f
                   | Inr (ch1, v1) \<Rightarrow>
                       (if vt_values v1 = Null
                        then Inr (dsc_set_error DSC_ERROR_OUT_OF_MEMORY ch1, Some v1)
                        else push_back_store ch1 v1 val)))
           else push_back_store ch v val))"

definition dsc_vector_empty ::
  "error_channel \<Rightarrow> dsc_vector_t option \<Rightarrow> error_channel \<times> bool" where
  "dsc_vector_empty ch vector =
     (case vector of
        None \<Rightarrow> (dsc_set_error DSC_ERROR_INVALID_ARGUMENT ch, True)
      | Some v \<Rightarrow> (dsc_set_error DSC_ERROR_NONE ch, vt_size v = 0))"

definition dsc_vector_pop_back ::
  "error_channel \<Rightarrow> dsc_vector_t option \<Rightarrow> error_channel \<times> dsc_vector_t option" where
  "dsc_vector_pop_back ch vector =
     (case vector of
        None \<Rightarrow> (dsc_set_error DSC_ERROR_INVALID_ARGUMENT ch, None)
      | Some v \<Rightarrow>
          (let (ch1, is_empty) = dsc_vector_empty ch vector in
           if is_empty then (dsc_set_error DSC_ERROR_EMPTY_CONTAINER ch1, Some v)
           else (dsc_set_error DSC_ERROR_NONE ch1, Some (v\<lparr>vt_size := vt_size v - 1\<rparr>))))"

text \<open>
  The loop of \<^verbatim>\<open>dsc_vector_insert\<close>:
  \<^verbatim>\<open>for (i = size; i > position; --i) values[i] = values[i - 1];\<close>
\<close>

fun shift_right :: "buffer_ptr \<Rightarrow> nat \<Rightarrow> nat \<Rightarrow> fault + buffer_ptr" where
  "shift_right p i position =
     (if position < i
      then
        (case load p (i - 1) of
           Inl f \<Rightarrow> Inl f
         | Inr c \<Rightarrow>
             (case store p i c of
                Inl f \<Rightarrow> Inl f
              | Inr p' \<Rightarrow> shift_right p' (i - 1) position))
      else Inr p)"

declare shift_right.simps [simp del]

text \<open>Lines 145 to 154 of \<^verbatim>\<open>dsc_vector_insert\<close>: the shift, the store and the increment.\<close>

definition insert_store ::
  "error_channel \<Rightarrow> dsc_vector_t \<Rightarrow> 64 word \<Rightarrow> c_int
     \<Rightarrow> fault + error_channel \<times> dsc_vector_t option \<times> 64 word" where
  "insert_store ch v position val =
     (case shift_right (vt_values v) (unat (vt_size v)) (unat position) of
        Inl f \<Rightarrow> Inl f
      | Inr p \<Rightarrow>
          (case store p (unat position) (Some val) of
             Inl f \<Rightarrow> Inl f
           | Inr p' \<Rightarrow>
               Inr (dsc_set_error DSC_ERROR_NONE ch,
                    Some (v\<lparr>vt_values := p', vt_size := vt_size v + 1\<rparr>), position)))"

definition dsc_vector_insert ::
  "bool \<Rightarrow> error_channel \<Rightarrow> dsc_vector_t option \<Rightarrow> 64 word \<Rightarrow> c_int
     \<Rightarrow> fault + error_channel \<times> dsc_vector_t option \<times> 64 word" where
  "dsc_vector_insert ok ch vector position val =
     (case vector of
        None \<Rightarrow> Inr (dsc_set_error DSC_ERROR_INVALID_ARGUMENT ch, None, 0)
      | Some v \<Rightarrow>
          (if position < 0 \<or> vt_size v < position
           then Inr (dsc_set_error DSC_ERROR_OUT_OF_RANGE ch, Some v, 0)
           else if vt_capacity v \<le> vt_size v
           then
             (case times_1_5 (vt_capacity v) of
                Inl f \<Rightarrow> Inl f
              | Inr new_capacity \<Rightarrow>
                  (case dsc_vector_resize ok ch v new_capacity of
                     Inl f \<Rightarrow> Inl f
                   | Inr (ch1, v1) \<Rightarrow>
                       (if vt_values v1 = Null
                        then Inr (dsc_set_error DSC_ERROR_OUT_OF_MEMORY ch1, Some v1, 0)
                        else insert_store ch1 v1 position val)))
           else insert_store ch v position val))"

text \<open>
  The loop of \<^verbatim>\<open>dsc_vector_erase\<close>:
  \<^verbatim>\<open>for (i = position; i < size - 1; ++i) values[i] = values[i + 1];\<close>
  with \<open>n\<close> for \<^verbatim>\<open>size - 1\<close>.
\<close>

function shift_left :: "buffer_ptr \<Rightarrow> nat \<Rightarrow> nat \<Rightarrow> fault + buffer_ptr" where
  "shift_left p i n =
     (if i < n
      then
        (case load p (i + 1) of
           Inl f \<Rightarrow> Inl f
         | Inr c \<Rightarrow>
             (case store p i c of
                Inl f \<Rightarrow> Inl f
              | Inr p' \<Rightarrow> shift_left p' (i + 1) n))
      else Inr p)"
  by pat_completeness auto
termination
  by (relation "measure (\<lambda>(p, i, n). n - i)") auto

declare shift_left.simps [simp del]

definition dsc_vector_erase ::
  "error_channel \<Rightarrow> dsc_vector_t option \<Rightarrow> 64 word
     \<Rightarrow> fault + error_channel \<times> dsc_vector_t option" where
  "dsc_vector_erase ch vector position =
     (case vector of
        None \<Rightarrow> Inr (dsc_set_error DSC_ERROR_INVALID_ARGUMENT ch, None)
      | Some v \<Rightarrow>
          (if position < 0 \<or> vt_size v \<le> position
           then Inr (dsc_set_error DSC_ERROR_OUT_OF_RANGE ch, Some v)
           else
             (case shift_left (vt_values v) (unat position) (unat (vt_size v - 1)) of
                Inl f \<Rightarrow> Inl f
              | Inr p \<Rightarrow>
                  Inr (dsc_set_error DSC_ERROR_NONE ch,
                       Some (v\<lparr>vt_values := p, vt_size := vt_size v - 1\<rparr>)))))"

definition dsc_vector_at ::
  "error_channel \<Rightarrow> dsc_vector_t option \<Rightarrow> 64 word \<Rightarrow> fault + error_channel \<times> c_int" where
  "dsc_vector_at ch vector index =
     (case vector of
        None \<Rightarrow> Inr (dsc_set_error DSC_ERROR_INVALID_ARGUMENT ch, 0)
      | Some v \<Rightarrow>
          (if index < 0 \<or> vt_size v \<le> index
           then Inr (dsc_set_error DSC_ERROR_OUT_OF_RANGE ch, 0)
           else
             (case load (vt_values v) (unat index) of
                Inl f \<Rightarrow> Inl f
              | Inr None \<Rightarrow> Inl (Load_indeterminate (unat index))
              | Inr (Some x) \<Rightarrow> Inr (dsc_set_error DSC_ERROR_NONE ch, x))))"

definition dsc_vector_size ::
  "error_channel \<Rightarrow> dsc_vector_t option \<Rightarrow> error_channel \<times> 64 word" where
  "dsc_vector_size ch vector =
     (case vector of
        None \<Rightarrow> (dsc_set_error DSC_ERROR_INVALID_ARGUMENT ch, 0)
      | Some v \<Rightarrow> (dsc_set_error DSC_ERROR_NONE ch, vt_size v))"

definition dsc_vector_capacity ::
  "error_channel \<Rightarrow> dsc_vector_t option \<Rightarrow> error_channel \<times> 64 word" where
  "dsc_vector_capacity ch vector =
     (case vector of
        None \<Rightarrow> (dsc_set_error DSC_ERROR_INVALID_ARGUMENT ch, 0)
      | Some v \<Rightarrow> (dsc_set_error DSC_ERROR_NONE ch, vt_capacity v))"

definition dsc_vector_reserve ::
  "bool \<Rightarrow> error_channel \<Rightarrow> dsc_vector_t option \<Rightarrow> 64 word
     \<Rightarrow> fault + error_channel \<times> dsc_vector_t option" where
  "dsc_vector_reserve ok ch vector new_capacity =
     (case vector of
        None \<Rightarrow> Inr (dsc_set_error DSC_ERROR_INVALID_ARGUMENT ch, None)
      | Some v \<Rightarrow>
          (if new_capacity \<le> vt_capacity v
           then Inr (dsc_set_error DSC_ERROR_INVALID_ARGUMENT ch, Some v)
           else
             (case dsc_vector_resize ok ch v new_capacity of
                Inl f \<Rightarrow> Inl f
              | Inr (ch1, v1) \<Rightarrow>
                  (if vt_values v1 = Null
                   then Inr (dsc_set_error DSC_ERROR_OUT_OF_MEMORY ch1, Some v1)
                   else Inr (dsc_set_error DSC_ERROR_NONE ch1, Some v1)))))"

section \<open>The vector of \<^verbatim>\<open>struct DSCVector\<close>\<close>

text \<open>
  The second implementation has the same function names; here they carry the prefix
  \<open>DSCVector\<close> in place of \<open>dsc_vector\<close>. Its \<^verbatim>\<open>size\<close> and \<^verbatim>\<open>capacity\<close> are
  \<^verbatim>\<open>unsigned int\<close>, its \<^verbatim>\<open>dsc_vector_resize\<close> calls \<^verbatim>\<open>realloc\<close> and returns whether
  it succeeded, and \<^verbatim>\<open>dsc_vector_size\<close> returns an \<^verbatim>\<open>int\<close>.
\<close>

record DSCVector =
  dv_values :: buffer_ptr
  dv_size :: "32 word"
  dv_capacity :: "32 word"

definition DSCVector_resize ::
  "bool \<Rightarrow> error_channel \<Rightarrow> DSCVector \<Rightarrow> 32 word
     \<Rightarrow> fault + error_channel \<times> DSCVector \<times> bool" where
  "DSCVector_resize ok ch vector new_capacity =
     (case realloc ok (dv_values vector) (unat new_capacity) of
        Inl f \<Rightarrow> Inl f
      | Inr new_values \<Rightarrow>
          (if new_values = Null
           then Inr (dsc_set_error DSC_ERROR_OUT_OF_MEMORY ch, vector, False)
           else Inr (ch, vector\<lparr>dv_values := new_values, dv_capacity := new_capacity\<rparr>, True)))"

definition DSCVector_create ::
  "32 word \<Rightarrow> bool \<Rightarrow> bool \<Rightarrow> error_channel \<Rightarrow> error_channel \<times> DSCVector option" where
  "DSCVector_create DSC_VECTOR_INITIAL_CAPACITY ok_struct ok ch =
     (if \<not> ok_struct then (dsc_set_error DSC_ERROR_OUT_OF_MEMORY ch, None)
      else
        (let new_vector = \<lparr>dv_values = malloc ok (unat DSC_VECTOR_INITIAL_CAPACITY),
                            dv_size = 0, dv_capacity = DSC_VECTOR_INITIAL_CAPACITY\<rparr> in
         if dv_values new_vector = Null
         then (dsc_set_error DSC_ERROR_OUT_OF_MEMORY ch, None)
         else (dsc_set_error DSC_ERROR_NONE ch, Some new_vector)))"

definition DSCVector_free :: "error_channel \<Rightarrow> DSCVector option \<Rightarrow> fault + error_channel" where
  "DSCVector_free ch vector =
     (case vector of
        None \<Rightarrow> Inr (dsc_set_error DSC_ERROR_INVALID_ARGUMENT ch)
      | Some v \<Rightarrow>
          (case free (dv_values v) of
             Inl f \<Rightarrow> Inl f
           | Inr _ \<Rightarrow> Inr (dsc_set_error DSC_ERROR_NONE ch)))"

definition DSCVector_push_back_store ::
  "error_channel \<Rightarrow> DSCVector \<Rightarrow> c_int \<Rightarrow> fault + error_channel \<times> DSCVector option" where
  "DSCVector_push_back_store ch v val =
     (case store (dv_values v) (unat (dv_size v)) (Some val) of
        Inl f \<Rightarrow> Inl f
      | Inr p \<Rightarrow>
          Inr (dsc_set_error DSC_ERROR_NONE ch,
               Some (v\<lparr>dv_values := p, dv_size := dv_size v + 1\<rparr>)))"

definition DSCVector_push_back ::
  "bool \<Rightarrow> error_channel \<Rightarrow> DSCVector option \<Rightarrow> c_int
     \<Rightarrow> fault + error_channel \<times> DSCVector option" where
  "DSCVector_push_back ok ch vector val =
     (case vector of
        None \<Rightarrow> Inr (dsc_set_error DSC_ERROR_INVALID_ARGUMENT ch, None)
      | Some v \<Rightarrow>
          (if dv_capacity v \<le> dv_size v
           then
             (case times_1_5 (dv_capacity v) of
                Inl f \<Rightarrow> Inl f
              | Inr new_capacity \<Rightarrow>
                  (case DSCVector_resize ok ch v new_capacity of
                     Inl f \<Rightarrow> Inl f
                   | Inr (ch1, v1, resized) \<Rightarrow>
                       (if \<not> resized then Inr (ch1, Some v1)
                        else DSCVector_push_back_store ch1 v1 val)))
           else DSCVector_push_back_store ch v val))"

definition DSCVector_empty :: "error_channel \<Rightarrow> DSCVector option \<Rightarrow> error_channel \<times> bool" where
  "DSCVector_empty ch vector =
     (case vector of
        None \<Rightarrow> (dsc_set_error DSC_ERROR_INVALID_ARGUMENT ch, True)
      | Some v \<Rightarrow> (dsc_set_error DSC_ERROR_NONE ch, dv_size v = 0))"

definition DSCVector_pop_back ::
  "error_channel \<Rightarrow> DSCVector option \<Rightarrow> error_channel \<times> DSCVector option" where
  "DSCVector_pop_back ch vector =
     (case vector of
        None \<Rightarrow> (dsc_set_error DSC_ERROR_INVALID_ARGUMENT ch, None)
      | Some v \<Rightarrow>
          (let (ch1, is_empty) = DSCVector_empty ch vector in
           if is_empty then (dsc_set_error DSC_ERROR_EMPTY_CONTAINER ch1, Some v)
           else (dsc_set_error DSC_ERROR_NONE ch1, Some (v\<lparr>dv_size := dv_size v - 1\<rparr>))))"

definition DSCVector_insert_store ::
  "error_channel \<Rightarrow> DSCVector \<Rightarrow> 32 word \<Rightarrow> c_int
     \<Rightarrow> fault + error_channel \<times> DSCVector option \<times> 32 word" where
  "DSCVector_insert_store ch v position val =
     (case shift_right (dv_values v) (unat (dv_size v)) (unat position) of
        Inl f \<Rightarrow> Inl f
      | Inr p \<Rightarrow>
          (case store p (unat position) (Some val) of
             Inl f \<Rightarrow> Inl f
           | Inr p' \<Rightarrow>
               Inr (dsc_set_error DSC_ERROR_NONE ch,
                    Some (v\<lparr>dv_values := p', dv_size := dv_size v + 1\<rparr>), position)))"

definition DSCVector_insert ::
  "bool \<Rightarrow> error_channel \<Rightarrow> DSCVector option \<Rightarrow> 32 word \<Rightarrow> c_int
     \<Rightarrow> fault + error_channel \<times> DSCVector option \<times> 32 word" where
  "DSCVector_insert ok ch vector position val =
     (case vector of
        None \<Rightarrow> Inr (dsc_set_error DSC_ERROR_INVALID_ARGUMENT ch, None, 0)
      | Some v \<Rightarrow>
          (if dv_size v < position
           then Inr (dsc_set_error DSC_ERROR_OUT_OF_RANGE ch, Some v, 0)
           else if dv_capacity v \<le> dv_size v
           then
             (case times_1_5 (dv_capacity v) of
                Inl f \<Rightarrow> Inl f
              | Inr new_capacity \<Rightarrow>
                  (case DSCVector_resize ok ch v new_capacity of
                     Inl f \<Rightarrow> Inl f
                   | Inr (ch1, v1, resized) \<Rightarrow>
                       (if \<not> resized then Inr (ch1, Some v1, 0)
                        else DSCVector_insert_store ch1 v1 position val)))
           else DSCVector_insert_store ch v position val))"

definition DSCVector_erase ::
  "error_channel \<Rightarrow> DSCVector option \<Rightarrow> 32 word \<Rightarrow> fault + error_channel \<times> DSCVector option" where
  "DSCVector_erase ch vector position =
     (case vector of
        None \<Rightarrow> Inr (dsc_set_error DSC_ERROR_INVALID_ARGUMENT ch, None)
      | Some v \<Rightarrow>
          (if dv_size v \<le> position
           then Inr (dsc_set_error DSC_ERROR_OUT_OF_RANGE ch, Some v)
           else
             (case shift_left (dv_values v) (unat position) (unat (dv_size v - 1)) of
                Inl f \<Rightarrow> Inl f
              | Inr p \<Rightarrow>
                  Inr (dsc_set_error DSC_ERROR_NONE ch,
                       Some (v\<lparr>dv_values := p, dv_size := dv_size v - 1\<rparr>)))))"

definition DSCVector_at ::
  "error_channel \<Rightarrow> DSCVector option \<Rightarrow> 32 word \<Rightarrow> fault + error_channel \<times> c_int" where
  "DSCVector_at ch vector index =
     (case vector of
        None \<Rightarrow> Inr (dsc_set_error DSC_ERROR_INVALID_ARGUMENT ch, 0)
      | Some v \<Rightarrow>
          (if dv_size v \<le> index
           then Inr (dsc_set_error DSC_ERROR_OUT_OF_RANGE ch, 0)
           else
             (case load (dv_values v) (unat index) of
                Inl f \<Rightarrow> Inl f
              | Inr None \<Rightarrow> Inl (Load_indeterminate (unat index))
              | Inr (Some x) \<Rightarrow> Inr (dsc_set_error DSC_ERROR_NONE ch, x))))"

text \<open>
  The return type is \<^verbatim>\<open>int\<close>, and \<^verbatim>\<open>return vector->size\<close> converts the
  \<^verbatim>\<open>unsigned int\<close> to it. The conversion of a size above \<^verbatim>\<open>INT_MAX\<close> is defined by
  the implementation, not undefined: the call returns. It is taken modulo \<open>2 ^ 32\<close>
  (\<open>sint\<close>), as gcc and clang define it, so that a size of \<open>2 ^ 31\<close> is returned as
  \<open>- 2 ^ 31\<close>.
\<close>

definition DSCVector_size ::
  "error_channel \<Rightarrow> DSCVector option \<Rightarrow> error_channel \<times> int" where
  "DSCVector_size ch vector =
     (case vector of
        None \<Rightarrow> (dsc_set_error DSC_ERROR_INVALID_ARGUMENT ch, - 1)
      | Some v \<Rightarrow> (dsc_set_error DSC_ERROR_NONE ch, sint (dv_size v)))"

definition DSCVector_capacity ::
  "error_channel \<Rightarrow> DSCVector option \<Rightarrow> error_channel \<times> 32 word" where
  "DSCVector_capacity ch vector =
     (case vector of
        None \<Rightarrow> (dsc_set_error DSC_ERROR_INVALID_ARGUMENT ch, 0)
      | Some v \<Rightarrow> (dsc_set_error DSC_ERROR_NONE ch, dv_capacity v))"

definition DSCVector_reserve ::
  "bool \<Rightarrow> error_channel \<Rightarrow> DSCVector option \<Rightarrow> 32 word
     \<Rightarrow> fault + error_channel \<times> DSCVector option" where
  "DSCVector_reserve ok ch vector new_capacity =
     (case vector of
        None \<Rightarrow> Inr (dsc_set_error DSC_ERROR_INVALID_ARGUMENT ch, None)
      | Some v \<Rightarrow>
          (if new_capacity \<le> dv_capacity v
           then Inr (dsc_set_error DSC_ERROR_INVALID_ARGUMENT ch, Some v)
           else
             (case DSCVector_resize ok ch v new_capacity of
                Inl f \<Rightarrow> Inl f
              | Inr (ch1, v1, resized) \<Rightarrow>
                  (if \<not> resized then Inr (ch1, Some v1)
                   else Inr (dsc_set_error DSC_ERROR_NONE ch1, Some v1)))))"

section \<open>Calls and runs\<close>

text \<open>
  A call of one of the operations that take a handle, with its arguments, and what it
  returns. Sizes and positions are numbers here, converted to the parameter type of
  the implementation that is called; a returned size is read as a number.
\<close>

datatype call =
    Push_back c_int
  | Pop_back
  | Insert nat c_int
  | Erase nat
  | At nat
  | Empty
  | Size
  | Capacity
  | Reserve nat

datatype ret = Ret_void | Ret_size int | Ret_int c_int | Ret_bool bool

fun dsc_vector_call ::
  "bool \<Rightarrow> call \<Rightarrow> error_channel \<Rightarrow> dsc_vector_t option
     \<Rightarrow> fault + error_channel \<times> dsc_vector_t option \<times> ret" where
  "dsc_vector_call ok (Push_back x) ch h =
     (case dsc_vector_push_back ok ch h x of
        Inl f \<Rightarrow> Inl f | Inr (ch', h') \<Rightarrow> Inr (ch', h', Ret_void))"
| "dsc_vector_call ok Pop_back ch h =
     (case dsc_vector_pop_back ch h of (ch', h') \<Rightarrow> Inr (ch', h', Ret_void))"
| "dsc_vector_call ok (Insert p x) ch h =
     (case dsc_vector_insert ok ch h (of_nat p) x of
        Inl f \<Rightarrow> Inl f | Inr (ch', h', r) \<Rightarrow> Inr (ch', h', Ret_size (uint r)))"
| "dsc_vector_call ok (Erase p) ch h =
     (case dsc_vector_erase ch h (of_nat p) of
        Inl f \<Rightarrow> Inl f | Inr (ch', h') \<Rightarrow> Inr (ch', h', Ret_void))"
| "dsc_vector_call ok (At i) ch h =
     (case dsc_vector_at ch h (of_nat i) of
        Inl f \<Rightarrow> Inl f | Inr (ch', r) \<Rightarrow> Inr (ch', h, Ret_int r))"
| "dsc_vector_call ok Empty ch h =
     (case dsc_vector_empty ch h of (ch', r) \<Rightarrow> Inr (ch', h, Ret_bool r))"
| "dsc_vector_call ok Size ch h =
     (case dsc_vector_size ch h of (ch', r) \<Rightarrow> Inr (ch', h, Ret_size (uint r)))"
| "dsc_vector_call ok Capacity ch h =
     (case dsc_vector_capacity ch h of (ch', r) \<Rightarrow> Inr (ch', h, Ret_size (uint r)))"
| "dsc_vector_call ok (Reserve n) ch h =
     (case dsc_vector_reserve ok ch h (of_nat n) of
        Inl f \<Rightarrow> Inl f | Inr (ch', h') \<Rightarrow> Inr (ch', h', Ret_void))"

fun DSCVector_call ::
  "bool \<Rightarrow> call \<Rightarrow> error_channel \<Rightarrow> DSCVector option
     \<Rightarrow> fault + error_channel \<times> DSCVector option \<times> ret" where
  "DSCVector_call ok (Push_back x) ch h =
     (case DSCVector_push_back ok ch h x of
        Inl f \<Rightarrow> Inl f | Inr (ch', h') \<Rightarrow> Inr (ch', h', Ret_void))"
| "DSCVector_call ok Pop_back ch h =
     (case DSCVector_pop_back ch h of (ch', h') \<Rightarrow> Inr (ch', h', Ret_void))"
| "DSCVector_call ok (Insert p x) ch h =
     (case DSCVector_insert ok ch h (of_nat p) x of
        Inl f \<Rightarrow> Inl f | Inr (ch', h', r) \<Rightarrow> Inr (ch', h', Ret_size (uint r)))"
| "DSCVector_call ok (Erase p) ch h =
     (case DSCVector_erase ch h (of_nat p) of
        Inl f \<Rightarrow> Inl f | Inr (ch', h') \<Rightarrow> Inr (ch', h', Ret_void))"
| "DSCVector_call ok (At i) ch h =
     (case DSCVector_at ch h (of_nat i) of
        Inl f \<Rightarrow> Inl f | Inr (ch', r) \<Rightarrow> Inr (ch', h, Ret_int r))"
| "DSCVector_call ok Empty ch h =
     (case DSCVector_empty ch h of (ch', r) \<Rightarrow> Inr (ch', h, Ret_bool r))"
| "DSCVector_call ok Size ch h =
     (case DSCVector_size ch h of (ch', r) \<Rightarrow> Inr (ch', h, Ret_size r))"
| "DSCVector_call ok Capacity ch h =
     (case DSCVector_capacity ch h of (ch', r) \<Rightarrow> Inr (ch', h, Ret_size (uint r)))"
| "DSCVector_call ok (Reserve n) ch h =
     (case DSCVector_reserve ok ch h (of_nat n) of
        Inl f \<Rightarrow> Inl f | Inr (ch', h') \<Rightarrow> Inr (ch', h', Ret_void))"

text \<open>The calls whose code can reach \<^verbatim>\<open>dsc_vector_resize\<close>.\<close>

fun may_resize :: "call \<Rightarrow> bool" where
  "may_resize (Push_back x) = True"
| "may_resize (Insert p x) = True"
| "may_resize (Reserve n) = True"
| "may_resize c = False"

text \<open>
  A run is a sequence of calls on one vector. Each step says whether the call is made
  on the null handle instead of the vector, and whether its allocation is granted.
  The run gives what a caller observes after each call, the error slot and the
  returned value, and the vector at the end.
\<close>

type_synonym step = "bool \<times> bool \<times> call"



text \<open>
  The abstract content of a vector is the first \<open>size\<close> cells of its buffer. A vector
  is well formed when its buffer is a block of \<open>capacity\<close> cells, its size is at most
  its capacity, and its content is initialised.
\<close>

definition dsc_vector_contents :: "dsc_vector_t \<Rightarrow> cell list" where
  "dsc_vector_contents v =
     (case vt_values v of Block cells \<Rightarrow> take (unat (vt_size v)) cells | _ \<Rightarrow> [])"

definition DSCVector_contents :: "DSCVector \<Rightarrow> cell list" where
  "DSCVector_contents v =
     (case dv_values v of Block cells \<Rightarrow> take (unat (dv_size v)) cells | _ \<Rightarrow> [])"

definition dsc_vector_wf :: "dsc_vector_t \<Rightarrow> bool" where
  "dsc_vector_wf v =
     (case vt_values v of
        Block cells \<Rightarrow>
          length cells = unat (vt_capacity v) \<and> vt_size v \<le> vt_capacity v
          \<and> None \<notin> set (take (unat (vt_size v)) cells)
      | _ \<Rightarrow> False)"

definition DSCVector_wf :: "DSCVector \<Rightarrow> bool" where
  "DSCVector_wf v =
     (case dv_values v of
        Block cells \<Rightarrow>
          length cells = unat (dv_capacity v) \<and> dv_size v \<le> dv_capacity v
          \<and> None \<notin> set (take (unat (dv_size v)) cells)
      | _ \<Rightarrow> False)"

text \<open>
  Two vectors, one of each implementation, are alike when both are well formed and
  they have the same size, the same capacity and the same content.
\<close>

definition alike :: "DSCVector \<Rightarrow> dsc_vector_t \<Rightarrow> bool" where
  "alike a b \<longleftrightarrow>
     DSCVector_wf a \<and> dsc_vector_wf b
     \<and> unat (dv_size a) = unat (vt_size b)
     \<and> unat (dv_capacity a) = unat (vt_capacity b)
     \<and> DSCVector_contents a = dsc_vector_contents b"




section \<open>The hash set\<close>

text \<open>
  The header \<^verbatim>\<open>dsc_set.h\<close> gives the two constants, the struct and the prototypes of
  the hash set; the file that implements them is not among the source files. The
  bucket array is a list of chains, each chain the list of its keys from the head on.
\<close>

definition DSC_SET_INITIAL_CAPACITY :: int where
  "DSC_SET_INITIAL_CAPACITY = 16"

definition DSC_SET_LOAD_FACTOR :: rat where
  "DSC_SET_LOAD_FACTOR = 75 / 100"

record dsc_set_t =
  set_buckets :: "int list list"
  set_capacity :: int
  set_size :: int
  set_error :: dsc_error_t

text \<open>
  The bodies of \<^verbatim>\<open>dsc_set_create\<close>, \<^verbatim>\<open>dsc_set_add\<close>, \<^verbatim>\<open>dsc_set_remove\<close> and
  \<^verbatim>\<open>dsc_set_contains\<close> are missing, with the helpers they would call. The definitions
  below follow section 4.1 of the specification step by step. Ratios are exact
  rationals, and the allocator's answers are inputs, as for the vectors.
\<close>

text \<open>
  Modelled from the spec: the hash function is missing. ``A modulo-by-capacity scheme,
  adjusted for negative keys to stay non-negative'' (the modulo of HOL is non-negative
  for a positive capacity).
\<close>

definition set_hash :: "int \<Rightarrow> int \<Rightarrow> nat" where
  "set_hash key cap = nat (key mod cap)"

text \<open>
  Modelled from the spec: the linking of a new entry is missing. ``Link it as the new
  head of its target bucket's chain''.
\<close>

definition link_head :: "int list list \<Rightarrow> nat \<Rightarrow> int \<Rightarrow> int list list" where
  "link_head buckets i key = buckets[i := key # buckets ! i]"

text \<open>
  Modelled from the spec: the computation of the load is missing. The load factor is
  the ``ratio of live entries to bucket-array capacity''.
\<close>

definition set_load :: "int \<Rightarrow> int \<Rightarrow> rat" where
  "set_load n cap = of_int n / of_int cap"

text \<open>
  Modelled from the spec: the rehash is missing. ``Every existing entry is rehashed:
  compute its bucket index under the new capacity and relink it into the new bucket
  array''.
\<close>

definition dsc_set_rehash :: "int list list \<Rightarrow> int \<Rightarrow> int list list" where
  "dsc_set_rehash buckets new_capacity =
     fold (\<lambda>key bs. link_head bs (set_hash key new_capacity) key) (concat buckets)
       (replicate (nat new_capacity) [])"

text \<open>
  Modelled from the spec: the body of \<^verbatim>\<open>dsc_set_create\<close> is missing. ``Allocates a
  bucket array of 16 null-initialized bucket heads, size 0, capacity 16, error state
  NONE. Fails with OUT_OF_MEMORY if allocation fails'', returning the null handle.
\<close>

definition dsc_set_create :: "bool \<Rightarrow> error_channel \<Rightarrow> error_channel \<times> dsc_set_t option" where
  "dsc_set_create ok ch =
     (if ok
      then (dsc_set_error DSC_ERROR_NONE ch,
            Some \<lparr>set_buckets = replicate (nat DSC_SET_INITIAL_CAPACITY) [],
                  set_capacity = DSC_SET_INITIAL_CAPACITY, set_size = 0,
                  set_error = DSC_ERROR_NONE\<rparr>)
      else (dsc_set_error DSC_ERROR_OUT_OF_MEMORY ch, None))"

text \<open>
  Modelled from the spec: the body of \<^verbatim>\<open>dsc_set_add\<close> is missing. The steps of
  ``Add(key)'': reject a null handle; reject a key that is in the chain of its bucket;
  if \<open>(size + 1) / capacity\<close> exceeds the load factor, grow the table first and use the
  bucket index under the new capacity; link the new entry at the head of its chain and
  increment the size; on a failed allocation, of the entry or of the grown bucket
  array, report \<open>OUT_OF_MEMORY\<close> and leave the table as it was. The specification calls
  the growth rule a simple multiplicative step and leaves its constant open (it
  recommends doubling): the factor is the parameter \<open>growth\<close>.
\<close>

definition dsc_set_add ::
  "int \<Rightarrow> bool \<Rightarrow> bool \<Rightarrow> error_channel \<Rightarrow> dsc_set_t option \<Rightarrow> int
     \<Rightarrow> error_channel \<times> dsc_set_t option" where
  "dsc_set_add growth ok_buckets ok_entry ch set_handle key =
     (case set_handle of
        None \<Rightarrow> (dsc_set_error DSC_ERROR_INVALID_ARGUMENT ch, None)
      | Some s \<Rightarrow>
          (if key \<in> set (set_buckets s ! set_hash key (set_capacity s))
           then (dsc_set_error DSC_ERROR_DUPLICATE_ITEM ch, Some s)
           else if DSC_SET_LOAD_FACTOR < set_load (set_size s + 1) (set_capacity s)
           then
             (if ok_buckets \<and> ok_entry
              then
                (let new_capacity = growth * set_capacity s;
                     buckets = dsc_set_rehash (set_buckets s) new_capacity in
                 (dsc_set_error DSC_ERROR_NONE ch,
                  Some (s\<lparr>set_buckets := link_head buckets (set_hash key new_capacity) key,
                          set_capacity := new_capacity, set_size := set_size s + 1\<rparr>)))
              else (dsc_set_error DSC_ERROR_OUT_OF_MEMORY ch, Some s))
           else if \<not> ok_entry
           then (dsc_set_error DSC_ERROR_OUT_OF_MEMORY ch, Some s)
           else
             (dsc_set_error DSC_ERROR_NONE ch,
              Some (s\<lparr>set_buckets :=
                        link_head (set_buckets s) (set_hash key (set_capacity s)) key,
                      set_size := set_size s + 1\<rparr>))))"

text \<open>
  Modelled from the spec: the body of \<^verbatim>\<open>dsc_set_remove\<close> is missing. The steps of
  ``Remove(key)'': reject a null handle; if the key is not in the chain of its bucket,
  report \<open>NOT_FOUND\<close>; otherwise unlink its entry and decrement the size.
\<close>

definition dsc_set_remove ::
  "error_channel \<Rightarrow> dsc_set_t option \<Rightarrow> int \<Rightarrow> error_channel \<times> dsc_set_t option" where
  "dsc_set_remove ch set_handle key =
     (case set_handle of
        None \<Rightarrow> (dsc_set_error DSC_ERROR_INVALID_ARGUMENT ch, None)
      | Some s \<Rightarrow>
          (let i = set_hash key (set_capacity s) in
           if key \<in> set (set_buckets s ! i)
           then
             (dsc_set_error DSC_ERROR_NONE ch,
              Some (s\<lparr>set_buckets := (set_buckets s)[i := remove1 key (set_buckets s ! i)],
                      set_size := set_size s - 1\<rparr>))
           else (dsc_set_error DSC_ERROR_NOT_FOUND ch, Some s)))"

text \<open>
  Modelled from the spec: the body of \<^verbatim>\<open>dsc_set_contains\<close> is missing. ``Compute
  bucket, walk chain, return match or signal NOT_FOUND without mutation'', and report a
  null handle.
\<close>

definition dsc_set_contains ::
  "error_channel \<Rightarrow> dsc_set_t option \<Rightarrow> int \<Rightarrow> error_channel \<times> bool" where
  "dsc_set_contains ch set_handle key =
     (case set_handle of
        None \<Rightarrow> (dsc_set_error DSC_ERROR_INVALID_ARGUMENT ch, False)
      | Some s \<Rightarrow>
          (if key \<in> set (set_buckets s ! set_hash key (set_capacity s))
           then (dsc_set_error DSC_ERROR_NONE ch, True)
           else (dsc_set_error DSC_ERROR_NOT_FOUND ch, False)))"

text \<open>The hash sets that the operations can produce, for a growth factor.\<close>

inductive set_reachable :: "int \<Rightarrow> dsc_set_t \<Rightarrow> bool" for growth :: int where
  created: "dsc_set_create True ch = (ch', Some s) \<Longrightarrow> set_reachable growth s"
| added: "set_reachable growth s \<Longrightarrow>
     dsc_set_add growth ok_buckets ok_entry ch (Some s) key = (ch', Some s') \<Longrightarrow>
     set_reachable growth s'"
| removed: "set_reachable growth s \<Longrightarrow>
     dsc_set_remove ch (Some s) key = (ch', Some s') \<Longrightarrow> set_reachable growth s'"

section \<open>Properties\<close>

lemmas vt_defs =
  dsc_vector_free_def dsc_vector_push_back_def dsc_vector_pop_back_def
  dsc_vector_insert_def dsc_vector_erase_def dsc_vector_at_def dsc_vector_empty_def
  dsc_vector_size_def dsc_vector_capacity_def dsc_vector_reserve_def

lemmas dv_defs =
  DSCVector_free_def DSCVector_push_back_def DSCVector_pop_back_def
  DSCVector_insert_def DSCVector_erase_def DSCVector_at_def DSCVector_empty_def
  DSCVector_size_def DSCVector_capacity_def DSCVector_reserve_def

text \<open>Rules and definitions for running the operations on concrete vectors and sets.\<close>

lemma replicate_numeral: "replicate (numeral k) x = x # replicate (pred_numeral k) x"
  by (simp add: numeral_eq_Suc)


lemma list_update_numeral: "(x # xs)[numeral k := y] = x # xs[pred_numeral k := y]"
  by (simp add: numeral_eq_Suc)


lemmas eval_defs =
  vt_defs dv_defs times_1_5_def dsc_vector_resize_def DSCVector_resize_def
  dsc_vector_create_def DSCVector_create_def SIZE_MAX_def
  sizeof_int_def malloc_def realloc_def memcpy_def free_def load_def store_def
  push_back_store_def insert_store_def DSCVector_push_back_store_def
  DSCVector_insert_store_def dsc_set_error_def Let_def replicate_numeral
  shift_right.simps shift_left.simps

subsection \<open>Null handles\<close>

text \<open>
  C6. Every operation that takes a handle, called with the null handle, sets the
  error slot to \<open>INVALID_ARGUMENT\<close> and returns normally; there is nothing it could
  mutate, and the handle it leaves is still null. This holds for the ten vector
  operations of both implementations and for add, remove and contains of the hash set.
  (\<^verbatim>\<open>dsc_vector_create\<close> takes no handle.)
\<close>

theorem null_handle_invalid_argument:
  "dsc_vector_free ch None = Inr (dsc_set_error DSC_ERROR_INVALID_ARGUMENT ch)
   \<and> dsc_vector_push_back ok ch None val
       = Inr (dsc_set_error DSC_ERROR_INVALID_ARGUMENT ch, None)
   \<and> dsc_vector_pop_back ch None = (dsc_set_error DSC_ERROR_INVALID_ARGUMENT ch, None)
   \<and> dsc_vector_insert ok ch None position val
       = Inr (dsc_set_error DSC_ERROR_INVALID_ARGUMENT ch, None, 0)
   \<and> dsc_vector_erase ch None position
       = Inr (dsc_set_error DSC_ERROR_INVALID_ARGUMENT ch, None)
   \<and> dsc_vector_at ch None position = Inr (dsc_set_error DSC_ERROR_INVALID_ARGUMENT ch, 0)
   \<and> dsc_vector_empty ch None = (dsc_set_error DSC_ERROR_INVALID_ARGUMENT ch, True)
   \<and> dsc_vector_size ch None = (dsc_set_error DSC_ERROR_INVALID_ARGUMENT ch, 0)
   \<and> dsc_vector_capacity ch None = (dsc_set_error DSC_ERROR_INVALID_ARGUMENT ch, 0)
   \<and> dsc_vector_reserve ok ch None new_capacity
       = Inr (dsc_set_error DSC_ERROR_INVALID_ARGUMENT ch, None)
   \<and> DSCVector_free ch None = Inr (dsc_set_error DSC_ERROR_INVALID_ARGUMENT ch)
   \<and> DSCVector_push_back ok ch None val
       = Inr (dsc_set_error DSC_ERROR_INVALID_ARGUMENT ch, None)
   \<and> DSCVector_pop_back ch None = (dsc_set_error DSC_ERROR_INVALID_ARGUMENT ch, None)
   \<and> DSCVector_insert ok ch None position' val
       = Inr (dsc_set_error DSC_ERROR_INVALID_ARGUMENT ch, None, 0)
   \<and> DSCVector_erase ch None position'
       = Inr (dsc_set_error DSC_ERROR_INVALID_ARGUMENT ch, None)
   \<and> DSCVector_at ch None position' = Inr (dsc_set_error DSC_ERROR_INVALID_ARGUMENT ch, 0)
   \<and> DSCVector_empty ch None = (dsc_set_error DSC_ERROR_INVALID_ARGUMENT ch, True)
   \<and> DSCVector_size ch None = (dsc_set_error DSC_ERROR_INVALID_ARGUMENT ch, - 1)
   \<and> DSCVector_capacity ch None = (dsc_set_error DSC_ERROR_INVALID_ARGUMENT ch, 0)
   \<and> DSCVector_reserve ok ch None new_capacity'
       = Inr (dsc_set_error DSC_ERROR_INVALID_ARGUMENT ch, None)
   \<and> dsc_set_add growth ok ok' ch None key
       = (dsc_set_error DSC_ERROR_INVALID_ARGUMENT ch, None)
   \<and> dsc_set_remove ch None key = (dsc_set_error DSC_ERROR_INVALID_ARGUMENT ch, None)
   \<and> dsc_set_contains ch None key = (dsc_set_error DSC_ERROR_INVALID_ARGUMENT ch, False)"
  by (simp add: vt_defs dv_defs dsc_set_add_def dsc_set_remove_def dsc_set_contains_def)

theorem null_handle_invalid_argument_witness:
  "dsc_vector_push_back True \<lparr>slot = DSC_ERROR_NONE, writes = 0\<rparr> None 7
     = Inr (\<lparr>slot = DSC_ERROR_INVALID_ARGUMENT, writes = 1\<rparr>, None)
   \<and> DSCVector_erase \<lparr>slot = DSC_ERROR_NONE, writes = 0\<rparr> None 3
     = Inr (\<lparr>slot = DSC_ERROR_INVALID_ARGUMENT, writes = 1\<rparr>, None)
   \<and> dsc_set_add 2 True True \<lparr>slot = DSC_ERROR_NONE, writes = 0\<rparr> None 5
     = (\<lparr>slot = DSC_ERROR_INVALID_ARGUMENT, writes = 1\<rparr>, None)
   \<and> dsc_set_contains \<lparr>slot = DSC_ERROR_NONE, writes = 0\<rparr> None 5
     = (\<lparr>slot = DSC_ERROR_INVALID_ARGUMENT, writes = 1\<rparr>, False)"
  using null_handle_invalid_argument
    [where ch = "\<lparr>slot = DSC_ERROR_NONE, writes = 0\<rparr>" and ok = True and val = 7
       and position' = 3 and growth = 2 and ok' = True and key = 5]
  by (simp add: dsc_set_error_def)

subsection \<open>Positions out of range\<close>

text \<open>
  C7. On a non-null vector, \<^verbatim>\<open>dsc_vector_at\<close> and \<^verbatim>\<open>dsc_vector_erase\<close> with an index
  that is at least the size, and \<^verbatim>\<open>dsc_vector_insert\<close> with a position greater than
  the size, set the error slot to \<open>OUT_OF_RANGE\<close> and leave the vector (its buffer, size
  and capacity) as it was. \<^verbatim>\<open>dsc_vector_at\<close> takes the vector read-only and returns 0.
\<close>

theorem out_of_range_unchanged:
  "(vt_size v \<le> index \<longrightarrow>
      dsc_vector_at ch (Some v) index = Inr (dsc_set_error DSC_ERROR_OUT_OF_RANGE ch, 0)
      \<and> dsc_vector_erase ch (Some v) index
          = Inr (dsc_set_error DSC_ERROR_OUT_OF_RANGE ch, Some v))
   \<and> (vt_size v < index \<longrightarrow>
      dsc_vector_insert ok ch (Some v) index val
        = Inr (dsc_set_error DSC_ERROR_OUT_OF_RANGE ch, Some v, 0))"
  by (simp add: vt_defs)

theorem out_of_range_unchanged_witness:
  "vt_size \<lparr>vt_values = Block [Some 5, None], vt_size = 1, vt_capacity = 2\<rparr> \<le> 1
   \<and> dsc_vector_at \<lparr>slot = DSC_ERROR_NONE, writes = 0\<rparr>
        (Some \<lparr>vt_values = Block [Some 5, None], vt_size = 1, vt_capacity = 2\<rparr>) 1
      = Inr (\<lparr>slot = DSC_ERROR_OUT_OF_RANGE, writes = 1\<rparr>, 0)
   \<and> dsc_vector_erase \<lparr>slot = DSC_ERROR_NONE, writes = 0\<rparr>
        (Some \<lparr>vt_values = Block [Some 5, None], vt_size = 1, vt_capacity = 2\<rparr>) 1
      = Inr (\<lparr>slot = DSC_ERROR_OUT_OF_RANGE, writes = 1\<rparr>,
             Some \<lparr>vt_values = Block [Some 5, None], vt_size = 1, vt_capacity = 2\<rparr>)
   \<and> vt_size \<lparr>vt_values = Block [Some 5, None], vt_size = 1, vt_capacity = 2\<rparr> < 2
   \<and> dsc_vector_insert True \<lparr>slot = DSC_ERROR_NONE, writes = 0\<rparr>
        (Some \<lparr>vt_values = Block [Some 5, None], vt_size = 1, vt_capacity = 2\<rparr>) 2 9
      = Inr (\<lparr>slot = DSC_ERROR_OUT_OF_RANGE, writes = 1\<rparr>,
             Some \<lparr>vt_values = Block [Some 5, None], vt_size = 1, vt_capacity = 2\<rparr>, 0)"
  using
    out_of_range_unchanged
      [of "\<lparr>vt_values = Block [Some 5, None], vt_size = 1, vt_capacity = 2\<rparr>" 1
        "\<lparr>slot = DSC_ERROR_NONE, writes = 0\<rparr>"]
    out_of_range_unchanged
      [of "\<lparr>vt_values = Block [Some 5, None], vt_size = 1, vt_capacity = 2\<rparr>" 2
        "\<lparr>slot = DSC_ERROR_NONE, writes = 0\<rparr>" True 9]
  by (simp add: dsc_set_error_def)

text \<open>The same holds in the implementation of \<^verbatim>\<open>struct DSCVector\<close>.\<close>

lemma out_of_range_unchanged_DSCVector:
  "(dv_size w \<le> index \<longrightarrow>
      DSCVector_at ch (Some w) index = Inr (dsc_set_error DSC_ERROR_OUT_OF_RANGE ch, 0)
      \<and> DSCVector_erase ch (Some w) index
          = Inr (dsc_set_error DSC_ERROR_OUT_OF_RANGE ch, Some w))
   \<and> (dv_size w < index \<longrightarrow>
      DSCVector_insert ok ch (Some w) index val
        = Inr (dsc_set_error DSC_ERROR_OUT_OF_RANGE ch, Some w, 0))"
  by (simp add: dv_defs)

subsection \<open>The operations on well-formed vectors\<close>

text \<open>The loops of insert and erase, in closed form, on a block.\<close>

lemma shift_right_Block:
  "p \<le> i \<Longrightarrow> i < length cs \<Longrightarrow>
   shift_right (Block cs) i p
     = Inr (Block (take (Suc p) cs @ take (i - p) (drop p cs) @ drop (Suc i) cs))"
proof (induction "i - p" arbitrary: i cs)
  case 0
  then have "i = p" by simp
  then show ?case
    by (subst shift_right.simps) simp
next
  case (Suc d)
  then have lt: "p < i" and i: "i < length cs" and d: "d = (i - 1) - p" and le: "p \<le> i - 1"
    by simp_all
  let ?cs = "cs[i := cs ! (i - 1)]"
  have i1: "i - 1 < length cs"
    using i by simp
  have step: "shift_right (Block cs) i p = shift_right (Block ?cs) (i - 1) p"
    using lt i i1 by (subst shift_right.simps) (simp add: load_def store_def)
  have "shift_right (Block ?cs) (i - 1) p
      = Inr (Block (take (Suc p) ?cs @ take (i - 1 - p) (drop p ?cs) @ drop (Suc (i - 1)) ?cs))"
    using Suc.hyps(1) [OF d le] i by simp
  also have "take (Suc p) ?cs = take (Suc p) cs"
    using lt by simp
  also have "take (i - 1 - p) (drop p ?cs) = take (i - 1 - p) (drop p cs)"
    using lt by (simp add: drop_update_swap)
  also have "drop (Suc (i - 1)) ?cs = cs ! (i - 1) # drop (Suc i) cs"
    using lt i by (simp add: drop_update_swap Cons_nth_drop_Suc [symmetric] upd_conv_take_nth_drop)
  also have "take (i - 1 - p) (drop p cs) @ cs ! (i - 1) # drop (Suc i) cs
      = take (i - p) (drop p cs) @ drop (Suc i) cs"
  proof -
    have "i - p = Suc (i - 1 - p)"
      using lt by simp
    then have "take (i - p) (drop p cs) = take (Suc (i - 1 - p)) (drop p cs)"
      by (simp only:)
    also have "\<dots> = take (i - 1 - p) (drop p cs) @ [drop p cs ! (i - 1 - p)]"
      using lt i by (intro take_Suc_conv_app_nth) simp
    also have "drop p cs ! (i - 1 - p) = cs ! (i - 1)"
      using lt i by simp
    finally show ?thesis by simp
  qed
  finally show ?case
    using step by simp
qed


lemma DSCVector_wfE:
  assumes "DSCVector_wf a"
  obtains ca where "dv_values a = Block ca" and "length ca = unat (dv_capacity a)"
    and "unat (dv_size a) \<le> length ca" and "None \<notin> set (take (unat (dv_size a)) ca)"
    and "DSCVector_contents a = take (unat (dv_size a)) ca"
  using assms
  by (auto simp: DSCVector_wf_def DSCVector_contents_def word_le_nat_alt split: buffer_ptr.splits)

lemma dsc_vector_wfE:
  assumes "dsc_vector_wf b"
  obtains cb where "vt_values b = Block cb" and "length cb = unat (vt_capacity b)"
    and "unat (vt_size b) \<le> length cb" and "None \<notin> set (take (unat (vt_size b)) cb)"
    and "dsc_vector_contents b = take (unat (vt_size b)) cb"
  using assms
  by (auto simp: dsc_vector_wf_def dsc_vector_contents_def word_le_nat_alt split: buffer_ptr.splits)

lemma DSCVector_grown:
  assumes wf: "DSCVector_wf a" and r: "DSCVector_resize True ch a m = Inr (ch1, a1, resized)"
    and le: "unat (dv_capacity a) \<le> unat m"
  shows "resized \<and> ch1 = ch \<and> dv_size a1 = dv_size a \<and> dv_capacity a1 = m
    \<and> DSCVector_wf a1 \<and> DSCVector_contents a1 = DSCVector_contents a"
proof -
  from wf obtain ca where ca: "dv_values a = Block ca" "length ca = unat (dv_capacity a)"
    "unat (dv_size a) \<le> length ca" "None \<notin> set (take (unat (dv_size a)) ca)"
    by (rule DSCVector_wfE)
  from r ca le have a1: "a1 = a\<lparr>dv_values := Block (ca @ replicate (unat m - length ca) None),
      dv_capacity := m\<rparr>" and "resized" and "ch1 = ch"
    by (auto simp: DSCVector_resize_def realloc_def split: if_splits)
  moreover have "DSCVector_wf a1"
    using ca le by (simp add: a1 DSCVector_wf_def word_le_nat_alt)
  moreover have "DSCVector_contents a1 = DSCVector_contents a"
    using ca by (simp add: a1 DSCVector_contents_def)
  ultimately show ?thesis by simp
qed


lemma DSCVector_push_back_store_spec:
  assumes wf: "DSCVector_wf a" and r: "DSCVector_push_back_store ch a x = Inr (ch', h')"
  shows "\<exists>a'. h' = Some a' \<and> ch' = dsc_set_error DSC_ERROR_NONE ch \<and> DSCVector_wf a'
    \<and> unat (dv_size a') = Suc (unat (dv_size a)) \<and> dv_capacity a' = dv_capacity a
    \<and> DSCVector_contents a' = DSCVector_contents a @ [Some x]"
proof -
  from wf obtain ca where ca: "dv_values a = Block ca" "length ca = unat (dv_capacity a)"
    "unat (dv_size a) \<le> length ca" "None \<notin> set (take (unat (dv_size a)) ca)"
    by (rule DSCVector_wfE)
  let ?n = "unat (dv_size a)"
  from r ca have lt: "?n < length ca"
    and h': "h' = Some (a\<lparr>dv_values := Block (ca[?n := Some x]), dv_size := dv_size a + 1\<rparr>)"
    and ch': "ch' = dsc_set_error DSC_ERROR_NONE ch"
    by (auto simp: DSCVector_push_back_store_def store_def split: if_splits)
  have "unat (dv_size a) + unat (1 :: 32 word) < 2 ^ LENGTH(32)"
    using lt ca(2) unsigned_less [of "dv_capacity a", where 'a = nat] by simp
  then have suc: "unat (dv_size a + 1) = Suc ?n"
    by (simp add: unat_add_lem [THEN iffD1])
  have tk: "take (Suc ?n) (ca[?n := Some x]) = take ?n ca @ [Some x]"
    using lt by (simp add: take_Suc_conv_app_nth)
  show ?thesis
    using ca lt by (simp add: h' ch' suc tk DSCVector_wf_def DSCVector_contents_def word_le_nat_alt)
qed

lemma push_back_store_spec:
  assumes wf: "dsc_vector_wf b" and lt: "unat (vt_size b) < unat (vt_capacity b)"
  shows "\<exists>b'. push_back_store ch b x = Inr (dsc_set_error DSC_ERROR_NONE ch, Some b')
    \<and> dsc_vector_wf b'
    \<and> unat (vt_size b') = Suc (unat (vt_size b)) \<and> vt_capacity b' = vt_capacity b
    \<and> dsc_vector_contents b' = dsc_vector_contents b @ [Some x]"
proof -
  from wf obtain cb where cb: "vt_values b = Block cb" "length cb = unat (vt_capacity b)"
    "unat (vt_size b) \<le> length cb" "None \<notin> set (take (unat (vt_size b)) cb)"
    by (rule dsc_vector_wfE)
  let ?n = "unat (vt_size b)"
  have "unat (vt_size b) + unat (1 :: 64 word) < 2 ^ LENGTH(64)"
    using lt unsigned_less [of "vt_capacity b", where 'a = nat] by simp
  then have suc: "unat (vt_size b + 1) = Suc ?n"
    by (simp add: unat_add_lem [THEN iffD1])
  have tk: "take (Suc ?n) (cb[?n := Some x]) = take ?n cb @ [Some x]"
    using lt cb(2) by (simp add: take_Suc_conv_app_nth)
  show ?thesis
    using cb lt
    by (simp add: push_back_store_def store_def suc tk dsc_vector_wf_def dsc_vector_contents_def
        word_le_nat_alt)
qed

lemma shift_right_fault:
  "p < i \<Longrightarrow> length cs \<le> i \<Longrightarrow> \<exists>f. shift_right (Block cs) i p = Inl f"
  by (subst shift_right.simps) (simp add: load_def store_def)

lemma insert_cells:
  assumes "p \<le> n" and "n < length cs"
  shows "(case shift_right (Block cs) n p of Inl f \<Rightarrow> Inl f | Inr q \<Rightarrow> store q p c)
    = Inr (Block (take p cs @ c # take (n - p) (drop p cs) @ drop (Suc n) cs))"
proof -
  have "(take (Suc p) cs @ take (n - p) (drop p cs) @ drop (Suc n) cs)[p := c]
      = take p cs @ c # take (n - p) (drop p cs) @ drop (Suc n) cs"
    using assms by (simp add: take_Suc_conv_app_nth list_update_append)
  then show ?thesis
    using assms by (simp add: shift_right_Block store_def)
qed

lemma insert_cells_fault:
  assumes "p \<le> n" and "length cs \<le> n"
  shows "\<exists>f. (case shift_right (Block cs) n p of Inl f \<Rightarrow> Inl f | Inr q \<Rightarrow> store q p c) = Inl f"
proof (cases "p < n")
  case True
  with shift_right_fault [OF True assms(2)] show ?thesis by auto
next
  case False
  with assms have "p = n" by simp
  then show ?thesis
    using assms(2) by (subst shift_right.simps) (simp add: store_def)
qed

lemma inserted_take:
  assumes "p \<le> n" and "n < length cs"
  shows "take (Suc n) (take p cs @ c # take (n - p) (drop p cs) @ drop (Suc n) cs)
    = take p (take n cs) @ c # drop p (take n cs)"
  using assms by (auto simp: drop_take min_def Suc_diff_le)

lemma None_notin_inserted:
  "None \<notin> set xs \<Longrightarrow> None \<notin> set (take p xs @ Some x # drop p xs)"
  by (auto dest: in_set_takeD in_set_dropD)

lemma DSCVector_insert_store_spec:
  assumes wf: "DSCVector_wf a" and p: "unat p \<le> unat (dv_size a)"
    and r: "DSCVector_insert_store ch a p x = Inr (ch', h', res)"
  shows "\<exists>a'. h' = Some a' \<and> ch' = dsc_set_error DSC_ERROR_NONE ch \<and> res = p \<and> DSCVector_wf a'
    \<and> unat (dv_size a') = Suc (unat (dv_size a)) \<and> dv_capacity a' = dv_capacity a
    \<and> DSCVector_contents a'
        = take (unat p) (DSCVector_contents a) @ Some x # drop (unat p) (DSCVector_contents a)"
proof -
  from wf obtain ca where ca: "dv_values a = Block ca" "length ca = unat (dv_capacity a)"
    "unat (dv_size a) \<le> length ca" "None \<notin> set (take (unat (dv_size a)) ca)"
    by (rule DSCVector_wfE)
  let ?n = "unat (dv_size a)"
  let ?cs = "take (unat p) ca @ Some x # take (?n - unat p) (drop (unat p) ca) @ drop (Suc ?n) ca"
  have lt: "?n < length ca"
  proof (rule ccontr)
    assume "\<not> ?n < length ca"
    then have "length ca \<le> ?n" by simp
    from insert_cells_fault [OF p this, of "Some x"] r ca(1) show False
      by (auto simp: DSCVector_insert_store_def split: sum.splits)
  qed
  from insert_cells [OF p lt, of "Some x"] r ca(1)
  have h': "h' = Some (a\<lparr>dv_values := Block ?cs, dv_size := dv_size a + 1\<rparr>)"
    and ch': "ch' = dsc_set_error DSC_ERROR_NONE ch" and res: "res = p"
    by (auto simp: DSCVector_insert_store_def split: sum.splits)
  have "unat (dv_size a) + unat (1 :: 32 word) < 2 ^ LENGTH(32)"
    using lt ca(2) unsigned_less [of "dv_capacity a", where 'a = nat] by simp
  then have suc: "unat (dv_size a + 1) = Suc ?n"
    by (simp add: unat_add_lem [THEN iffD1])
  have len: "length ?cs = length ca"
    using p lt by simp
  have tk: "take (Suc ?n) ?cs = take (unat p) (take ?n ca) @ Some x # drop (unat p) (take ?n ca)"
    using p lt by (rule inserted_take)
  have "None \<notin> set (take (unat p) (take ?n ca) @ Some x # drop (unat p) (take ?n ca))"
    using ca(4) by (rule None_notin_inserted)
  then have "None \<notin> set (take (Suc ?n) ?cs)"
    unfolding tk .
  then show ?thesis
    using ca lt len tk
    by (simp add: h' ch' res suc DSCVector_wf_def DSCVector_contents_def word_le_nat_alt)
qed

lemma insert_store_spec:
  assumes wf: "dsc_vector_wf b" and p: "unat p \<le> unat (vt_size b)"
    and lt: "unat (vt_size b) < unat (vt_capacity b)"
  shows "\<exists>b'. insert_store ch b p x = Inr (dsc_set_error DSC_ERROR_NONE ch, Some b', p)
    \<and> dsc_vector_wf b'
    \<and> unat (vt_size b') = Suc (unat (vt_size b)) \<and> vt_capacity b' = vt_capacity b
    \<and> dsc_vector_contents b'
        = take (unat p) (dsc_vector_contents b) @ Some x # drop (unat p) (dsc_vector_contents b)"
proof -
  from wf obtain cb where cb: "vt_values b = Block cb" "length cb = unat (vt_capacity b)"
    "unat (vt_size b) \<le> length cb" "None \<notin> set (take (unat (vt_size b)) cb)"
    by (rule dsc_vector_wfE)
  let ?n = "unat (vt_size b)"
  let ?cs = "take (unat p) cb @ Some x # take (?n - unat p) (drop (unat p) cb) @ drop (Suc ?n) cb"
  have lt': "?n < length cb"
    using lt cb(2) by simp
  have st: "insert_store ch b p x
      = Inr (dsc_set_error DSC_ERROR_NONE ch,
          Some (b\<lparr>vt_values := Block ?cs, vt_size := vt_size b + 1\<rparr>), p)"
    using insert_cells [OF p lt', of "Some x"] cb(1)
    by (auto simp: insert_store_def split: sum.splits)
  have "unat (vt_size b) + unat (1 :: 64 word) < 2 ^ LENGTH(64)"
    using lt unsigned_less [of "vt_capacity b", where 'a = nat] by simp
  then have suc: "unat (vt_size b + 1) = Suc ?n"
    by (simp add: unat_add_lem [THEN iffD1])
  have len: "length ?cs = length cb"
    using p lt' by simp
  have tk: "take (Suc ?n) ?cs = take (unat p) (take ?n cb) @ Some x # drop (unat p) (take ?n cb)"
    using p lt' by (rule inserted_take)
  have "None \<notin> set (take (unat p) (take ?n cb) @ Some x # drop (unat p) (take ?n cb))"
    using cb(4) by (rule None_notin_inserted)
  then have "None \<notin> set (take (Suc ?n) ?cs)"
    unfolding tk .
  then show ?thesis
    using cb lt' len tk
    by (simp add: st suc dsc_vector_wf_def dsc_vector_contents_def word_le_nat_alt)
qed

subsection \<open>Growth of the capacity\<close>

lemma times_1_5_unat:
  "times_1_5 c = Inr n \<Longrightarrow> unat n = 3 * unat c div 2"
  by (auto simp: times_1_5_def unat_of_nat split: if_splits)


lemma times_1_5_exact: "times_1_5 c = Inr n \<Longrightarrow> 3 * unat c < 2 ^ 53"
  by (auto simp: times_1_5_def split: if_splits)

lemma times_1_5_64_defined:
  "3 * unat c < 2 ^ 53 \<Longrightarrow> \<exists>n. times_1_5 (c :: 64 word) = Inr n"
  by (simp add: times_1_5_def)


text \<open>What \<^verbatim>\<open>dsc_vector_resize\<close> does when it returns, in either implementation.\<close>

lemma dsc_vector_resize_cases:
  assumes "dsc_vector_resize ok ch v n = Inr (ch1, v1)"
  shows "(ch1 = dsc_set_error DSC_ERROR_OUT_OF_MEMORY ch \<and> v1 = v
            \<and> (\<not> ok \<or> SIZE_MAX div sizeof_int < unat n))
         \<or> (ch1 = ch \<and> ok \<and> \<not> SIZE_MAX div sizeof_int < unat n \<and> vt_capacity v1 = n
            \<and> vt_size v1 = vt_size v \<and> vt_values v1 \<noteq> Null)"
  using assms
  by (auto simp: dsc_vector_resize_def Let_def malloc_def memcpy_def free_def
      split: if_splits sum.splits buffer_ptr.splits)

lemma dsc_vector_resize_refused:
  "dsc_vector_resize False ch v n = Inr (dsc_set_error DSC_ERROR_OUT_OF_MEMORY ch, v)"
  by (simp add: dsc_vector_resize_def malloc_def)

lemma DSCVector_resize_cases:
  assumes "DSCVector_resize ok ch v n = Inr (ch1, v1, resized)"
  shows "(\<not> resized \<and> \<not> ok \<and> ch1 = dsc_set_error DSC_ERROR_OUT_OF_MEMORY ch \<and> v1 = v)
         \<or> (resized \<and> ok \<and> ch1 = ch \<and> dv_capacity v1 = n \<and> dv_size v1 = dv_size v
              \<and> dv_values v1 \<noteq> Null)"
  using assms
  by (auto simp: DSCVector_resize_def realloc_def malloc_def
      split: if_splits sum.splits buffer_ptr.splits)


lemma push_back_store_capacity:
  "push_back_store ch v x = Inr (ch', Some v') \<Longrightarrow>
     vt_capacity v' = vt_capacity v \<and> ch' = dsc_set_error DSC_ERROR_NONE ch"
  by (auto simp: push_back_store_def split: sum.splits)

lemma insert_store_capacity:
  "insert_store ch v p x = Inr (ch', Some v', r) \<Longrightarrow>
     vt_capacity v' = vt_capacity v \<and> ch' = dsc_set_error DSC_ERROR_NONE ch \<and> r = p"
  by (auto simp: insert_store_def split: sum.splits)

lemma DSCVector_push_back_store_capacity:
  "DSCVector_push_back_store ch v x = Inr (ch', Some v') \<Longrightarrow>
     dv_capacity v' = dv_capacity v \<and> ch' = dsc_set_error DSC_ERROR_NONE ch"
  by (auto simp: DSCVector_push_back_store_def split: sum.splits)

lemma DSCVector_insert_store_capacity:
  "DSCVector_insert_store ch v p x = Inr (ch', Some v', r) \<Longrightarrow>
     dv_capacity v' = dv_capacity v \<and> ch' = dsc_set_error DSC_ERROR_NONE ch \<and> r = p"
  by (auto simp: DSCVector_insert_store_def split: sum.splits)


lemma dsc_vector_push_back_capacity:
  assumes "dsc_vector_push_back ok ch (Some v) x = Inr (ch', Some v')"
  shows "unat (vt_capacity v') =
     (if vt_capacity v \<le> vt_size v \<and> ok then 3 * unat (vt_capacity v) div 2
      else unat (vt_capacity v))"
proof (cases "vt_capacity v \<le> vt_size v")
  case False
  with assms show ?thesis
    by (auto simp: dsc_vector_push_back_def dest: push_back_store_capacity)
next
  case True
  with assms obtain n ch1 v1 where n: "times_1_5 (vt_capacity v) = Inr n"
    and r: "dsc_vector_resize ok ch v n = Inr (ch1, v1)"
    and rest: "if vt_values v1 = Null
      then (ch', Some v') = (dsc_set_error DSC_ERROR_OUT_OF_MEMORY ch1, Some v1)
      else push_back_store ch1 v1 x = Inr (ch', Some v')"
    by (auto simp: dsc_vector_push_back_def split: sum.splits if_splits)
  have small: "\<not> SIZE_MAX div sizeof_int < unat n"
    using times_1_5_unat [OF n] times_1_5_exact [OF n]
    by (simp add: SIZE_MAX_def sizeof_int_def)
  have "vt_capacity v' = vt_capacity v1"
    using rest by (auto split: if_splits dest: push_back_store_capacity)
  moreover have "vt_capacity v1 = (if ok then n else vt_capacity v)"
    using dsc_vector_resize_cases [OF r] small by auto
  ultimately show ?thesis
    using True times_1_5_unat [OF n] by simp
qed

lemma dsc_vector_insert_capacity:
  assumes "dsc_vector_insert ok ch (Some v) p x = Inr (ch', Some v', r)"
  shows "unat (vt_capacity v') =
     (if p \<le> vt_size v \<and> vt_capacity v \<le> vt_size v \<and> ok
      then 3 * unat (vt_capacity v) div 2 else unat (vt_capacity v))"
proof (cases "p \<le> vt_size v \<and> vt_capacity v \<le> vt_size v")
  case False
  with assms show ?thesis
    by (auto simp: dsc_vector_insert_def not_le dest: insert_store_capacity split: if_splits)
next
  case True
  with assms obtain n ch1 v1 where n: "times_1_5 (vt_capacity v) = Inr n"
    and r: "dsc_vector_resize ok ch v n = Inr (ch1, v1)"
    and rest: "if vt_values v1 = Null
      then (ch', Some v', r) = (dsc_set_error DSC_ERROR_OUT_OF_MEMORY ch1, Some v1, 0)
      else insert_store ch1 v1 p x = Inr (ch', Some v', r)"
    by (auto simp: dsc_vector_insert_def not_less split: sum.splits if_splits)
  have small: "\<not> SIZE_MAX div sizeof_int < unat n"
    using times_1_5_unat [OF n] times_1_5_exact [OF n]
    by (simp add: SIZE_MAX_def sizeof_int_def)
  have "vt_capacity v' = vt_capacity v1"
    using rest by (auto split: if_splits dest: insert_store_capacity)
  moreover have "vt_capacity v1 = (if ok then n else vt_capacity v)"
    using dsc_vector_resize_cases [OF r] small by auto
  ultimately show ?thesis
    using True times_1_5_unat [OF n] by simp
qed

lemma DSCVector_push_back_capacity:
  assumes "DSCVector_push_back ok ch (Some v) x = Inr (ch', Some v')"
  shows "unat (dv_capacity v') =
     (if dv_capacity v \<le> dv_size v \<and> ok then 3 * unat (dv_capacity v) div 2
      else unat (dv_capacity v))"
proof (cases "dv_capacity v \<le> dv_size v")
  case False
  with assms show ?thesis
    by (auto simp: DSCVector_push_back_def dest: DSCVector_push_back_store_capacity)
next
  case True
  with assms obtain n ch1 v1 resized where n: "times_1_5 (dv_capacity v) = Inr n"
    and r: "DSCVector_resize ok ch v n = Inr (ch1, v1, resized)"
    and rest: "if \<not> resized then (ch', Some v') = (ch1, Some v1)
      else DSCVector_push_back_store ch1 v1 x = Inr (ch', Some v')"
    by (auto simp: DSCVector_push_back_def split: sum.splits if_splits)
  have "dv_capacity v' = dv_capacity v1"
    using rest by (auto split: if_splits dest: DSCVector_push_back_store_capacity)
  moreover have "dv_capacity v1 = (if ok then n else dv_capacity v)"
    using DSCVector_resize_cases [OF r] by auto
  ultimately show ?thesis
    using True times_1_5_unat [OF n] by simp
qed

lemma DSCVector_insert_capacity:
  assumes "DSCVector_insert ok ch (Some v) p x = Inr (ch', Some v', r)"
  shows "unat (dv_capacity v') =
     (if p \<le> dv_size v \<and> dv_capacity v \<le> dv_size v \<and> ok
      then 3 * unat (dv_capacity v) div 2 else unat (dv_capacity v))"
proof (cases "p \<le> dv_size v \<and> dv_capacity v \<le> dv_size v")
  case False
  with assms show ?thesis
    by (auto simp: DSCVector_insert_def not_le dest: DSCVector_insert_store_capacity
        split: if_splits)
next
  case True
  with assms obtain n ch1 v1 resized where n: "times_1_5 (dv_capacity v) = Inr n"
    and r: "DSCVector_resize ok ch v n = Inr (ch1, v1, resized)"
    and rest: "if \<not> resized then (ch', Some v', r) = (ch1, Some v1, 0)
      else DSCVector_insert_store ch1 v1 p x = Inr (ch', Some v', r)"
    by (auto simp: DSCVector_insert_def not_less split: sum.splits if_splits)
  have "dv_capacity v' = dv_capacity v1"
    using rest by (auto split: if_splits dest: DSCVector_insert_store_capacity)
  moreover have "dv_capacity v1 = (if ok then n else dv_capacity v)"
    using DSCVector_resize_cases [OF r] by auto
  ultimately show ?thesis
    using True times_1_5_unat [OF n] by simp
qed


text \<open>
  A full vector that is granted its allocation does grow, and takes the element. Its
  capacity must be at least 2: from capacity 1 the new capacity is 1 again.
\<close>


lemma dsc_vector_grown_wide:
  assumes wf: "dsc_vector_wf b" and le: "unat (vt_capacity b) \<le> unat m"
    and small: "unat m < 2 ^ 62"
  shows "\<exists>b1. dsc_vector_resize True ch b m = Inr (ch, b1) \<and> vt_values b1 \<noteq> Null
    \<and> vt_size b1 = vt_size b \<and> vt_capacity b1 = m
    \<and> dsc_vector_wf b1 \<and> dsc_vector_contents b1 = dsc_vector_contents b"
proof -
  from wf obtain cb where cb: "vt_values b = Block cb" "length cb = unat (vt_capacity b)"
    "unat (vt_size b) \<le> length cb" "None \<notin> set (take (unat (vt_size b)) cb)"
    by (rule dsc_vector_wfE)
  let ?n = "unat (vt_size b)"
  have "unat (vt_size b) * unat (4 :: 64 word) < 2 ^ LENGTH(64)"
    using cb(2,3) le small by simp
  then have "unat (vt_size b * 4) = ?n * 4"
    by (simp add: unat_mult_lem [THEN iffD1])
  then have n: "unat (vt_size b * 4) div 4 = ?n"
    by simp
  let ?b1 = "b\<lparr>vt_values := Block (take ?n cb @ replicate (unat m - ?n) None),
      vt_capacity := m\<rparr>"
  have "dsc_vector_resize True ch b m = Inr (ch, ?b1)"
    using cb le small
    by (simp add: dsc_vector_resize_def SIZE_MAX_def sizeof_int_def malloc_def Let_def
        memcpy_def free_def n)
  moreover have "dsc_vector_wf ?b1"
    using cb le by (simp add: dsc_vector_wf_def word_le_nat_alt)
  moreover have "dsc_vector_contents ?b1 = dsc_vector_contents b"
    using cb by (simp add: dsc_vector_contents_def)
  ultimately show ?thesis by simp
qed

lemma DSCVector_resize_granted:
  assumes wf: "DSCVector_wf a" and le: "unat (dv_capacity a) \<le> unat m" and pos: "0 < unat m"
  shows "\<exists>a1. DSCVector_resize True ch a m = Inr (ch, a1, True) \<and> dv_size a1 = dv_size a
    \<and> dv_capacity a1 = m \<and> DSCVector_wf a1
    \<and> DSCVector_contents a1 = DSCVector_contents a"
proof -
  from wf obtain ca where ca: "dv_values a = Block ca"
    by (rule DSCVector_wfE)
  with pos obtain a1 where r: "DSCVector_resize True ch a m = Inr (ch, a1, True)"
    by (simp add: DSCVector_resize_def realloc_def)
  from DSCVector_grown [OF wf r le] r show ?thesis
    by simp
qed

lemma DSCVector_push_back_store_room:
  assumes wf: "DSCVector_wf a" and lt: "unat (dv_size a) < unat (dv_capacity a)"
  shows "\<exists>a'. DSCVector_push_back_store ch a x = Inr (dsc_set_error DSC_ERROR_NONE ch, Some a')
    \<and> DSCVector_wf a'
    \<and> unat (dv_size a') = Suc (unat (dv_size a)) \<and> dv_capacity a' = dv_capacity a
    \<and> DSCVector_contents a' = DSCVector_contents a @ [Some x]"
proof -
  from wf obtain ca where ca: "dv_values a = Block ca" "length ca = unat (dv_capacity a)"
    by (rule DSCVector_wfE)
  with lt obtain ch' h' where r: "DSCVector_push_back_store ch a x = Inr (ch', h')"
    by (simp add: DSCVector_push_back_store_def store_def)
  from DSCVector_push_back_store_spec [OF wf r] r show ?thesis
    by auto
qed

lemma DSCVector_insert_store_room:
  assumes wf: "DSCVector_wf a" and p: "unat p \<le> unat (dv_size a)"
    and lt: "unat (dv_size a) < unat (dv_capacity a)"
  shows "\<exists>a'. DSCVector_insert_store ch a p x = Inr (dsc_set_error DSC_ERROR_NONE ch, Some a', p)
    \<and> DSCVector_wf a'
    \<and> unat (dv_size a') = Suc (unat (dv_size a)) \<and> dv_capacity a' = dv_capacity a
    \<and> DSCVector_contents a'
        = take (unat p) (DSCVector_contents a) @ Some x # drop (unat p) (DSCVector_contents a)"
proof -
  from wf obtain ca where ca: "dv_values a = Block ca" "length ca = unat (dv_capacity a)"
    by (rule DSCVector_wfE)
  from lt ca(2) have lt': "unat (dv_size a) < length ca"
    by simp
  from insert_cells [OF p lt', of "Some x"] ca(1)
  obtain ch' h' res where r: "DSCVector_insert_store ch a p x = Inr (ch', h', res)"
    by (auto simp: DSCVector_insert_store_def split: sum.splits)
  from DSCVector_insert_store_spec [OF wf p r] r show ?thesis
    by auto
qed

lemma grown_room: "2 \<le> (c :: nat) \<Longrightarrow> c < 3 * c div 2"
  by arith

lemma dsc_vector_push_back_grows:
  assumes wf: "dsc_vector_wf v" and full: "vt_capacity v \<le> vt_size v"
    and two: "2 \<le> unat (vt_capacity v)" and ex: "3 * unat (vt_capacity v) < 2 ^ 53"
  shows "\<exists>ch' v'. dsc_vector_push_back True ch (Some v) x = Inr (ch', Some v')
    \<and> unat (vt_capacity v') = 3 * unat (vt_capacity v) div 2
    \<and> unat (vt_size v') = Suc (unat (vt_size v))"
proof -
  from times_1_5_64_defined [OF ex] obtain n where n: "times_1_5 (vt_capacity v) = Inr n"
    by blast
  have un: "unat n = 3 * unat (vt_capacity v) div 2"
    using n by (rule times_1_5_unat)
  have le: "unat (vt_capacity v) \<le> unat n" and room: "unat (vt_capacity v) < unat n"
    using grown_room [OF two] un by simp_all
  have "3 * unat (vt_capacity v) div 2 < 2 ^ 53"
    using ex by simp
  moreover have "(2 :: nat) ^ 53 < 2 ^ 62"
    by simp
  ultimately have small: "unat n < 2 ^ 62"
    using un by linarith
  from dsc_vector_grown_wide [OF wf le small, of ch] obtain v1 where v1:
    "dsc_vector_resize True ch v n = Inr (ch, v1)" "vt_values v1 \<noteq> Null"
    "vt_size v1 = vt_size v" "vt_capacity v1 = n" "dsc_vector_wf v1"
    by blast
  from wf full have sz: "unat (vt_size v) = unat (vt_capacity v)"
    by (auto simp: dsc_vector_wf_def word_le_nat_alt split: buffer_ptr.splits)
  have "unat (vt_size v1) < unat (vt_capacity v1)"
    using room sz v1(3,4) by simp
  from push_back_store_spec [OF v1(5) this, of ch x] obtain v' where v':
    "push_back_store ch v1 x = Inr (dsc_set_error DSC_ERROR_NONE ch, Some v')"
    "unat (vt_size v') = Suc (unat (vt_size v1))" "vt_capacity v' = vt_capacity v1"
    by blast
  have "dsc_vector_push_back True ch (Some v) x = Inr (dsc_set_error DSC_ERROR_NONE ch, Some v')"
    using full n v1(1,2) v'(1) by (simp add: dsc_vector_push_back_def)
  then show ?thesis
    using v'(2,3) v1(3,4) un by simp
qed

lemma dsc_vector_insert_grows:
  assumes wf: "dsc_vector_wf v" and full: "vt_capacity v \<le> vt_size v"
    and two: "2 \<le> unat (vt_capacity v)" and ex: "3 * unat (vt_capacity v) < 2 ^ 53"
    and p: "p \<le> vt_size v"
  shows "\<exists>ch' v'. dsc_vector_insert True ch (Some v) p x = Inr (ch', Some v', p)
    \<and> unat (vt_capacity v') = 3 * unat (vt_capacity v) div 2
    \<and> unat (vt_size v') = Suc (unat (vt_size v))"
proof -
  from times_1_5_64_defined [OF ex] obtain n where n: "times_1_5 (vt_capacity v) = Inr n"
    by blast
  have un: "unat n = 3 * unat (vt_capacity v) div 2"
    using n by (rule times_1_5_unat)
  have le: "unat (vt_capacity v) \<le> unat n" and room: "unat (vt_capacity v) < unat n"
    using grown_room [OF two] un by simp_all
  have "3 * unat (vt_capacity v) div 2 < 2 ^ 53"
    using ex by simp
  moreover have "(2 :: nat) ^ 53 < 2 ^ 62"
    by simp
  ultimately have small: "unat n < 2 ^ 62"
    using un by linarith
  from dsc_vector_grown_wide [OF wf le small, of ch] obtain v1 where v1:
    "dsc_vector_resize True ch v n = Inr (ch, v1)" "vt_values v1 \<noteq> Null"
    "vt_size v1 = vt_size v" "vt_capacity v1 = n" "dsc_vector_wf v1"
    by blast
  from wf full have sz: "unat (vt_size v) = unat (vt_capacity v)"
    by (auto simp: dsc_vector_wf_def word_le_nat_alt split: buffer_ptr.splits)
  have lt: "unat (vt_size v1) < unat (vt_capacity v1)"
    using room sz v1(3,4) by simp
  have p1: "unat p \<le> unat (vt_size v1)"
    using p v1(3) by (simp add: word_le_nat_alt)
  from insert_store_spec [OF v1(5) p1 lt, of ch x] obtain v' where v':
    "insert_store ch v1 p x = Inr (dsc_set_error DSC_ERROR_NONE ch, Some v', p)"
    "unat (vt_size v') = Suc (unat (vt_size v1))" "vt_capacity v' = vt_capacity v1"
    by blast
  have np: "\<not> vt_size v < p"
    using p by (simp add: not_less)
  have "dsc_vector_insert True ch (Some v) p x = Inr (dsc_set_error DSC_ERROR_NONE ch, Some v', p)"
    using full np n v1(1,2) v'(1) by (simp add: dsc_vector_insert_def)
  then show ?thesis
    using v'(2,3) v1(3,4) un by simp
qed

lemma DSCVector_push_back_grows:
  assumes wf: "DSCVector_wf w" and full: "dv_capacity w \<le> dv_size w"
    and two: "2 \<le> unat (dv_capacity w)" and fit: "3 * unat (dv_capacity w) div 2 < 2 ^ 32"
  shows "\<exists>ch' w'. DSCVector_push_back True ch (Some w) x = Inr (ch', Some w')
    \<and> unat (dv_capacity w') = 3 * unat (dv_capacity w) div 2
    \<and> unat (dv_size w') = Suc (unat (dv_size w))"
proof -
  have "3 * unat (dv_capacity w) < 2 ^ 34"
    using unsigned_less [of "dv_capacity w", where 'a = nat] by simp
  moreover have "(2 :: nat) ^ 34 < 2 ^ 53"
    by simp
  ultimately have ex: "3 * unat (dv_capacity w) < 2 ^ 53"
    by linarith
  with fit have n: "times_1_5 (dv_capacity w) = Inr (of_nat (3 * unat (dv_capacity w) div 2))"
    by (simp add: times_1_5_def)
  let ?n = "of_nat (3 * unat (dv_capacity w) div 2) :: 32 word"
  have un: "unat ?n = 3 * unat (dv_capacity w) div 2"
    using n by (rule times_1_5_unat)
  have le: "unat (dv_capacity w) \<le> unat ?n" and room: "unat (dv_capacity w) < unat ?n"
    and pos: "0 < unat ?n"
    using grown_room [OF two] un by simp_all
  from DSCVector_resize_granted [OF wf le pos, of ch] obtain w1 where w1:
    "DSCVector_resize True ch w ?n = Inr (ch, w1, True)"
    "dv_size w1 = dv_size w" "dv_capacity w1 = ?n" "DSCVector_wf w1"
    by blast
  from wf full have sz: "unat (dv_size w) = unat (dv_capacity w)"
    by (auto simp: DSCVector_wf_def word_le_nat_alt split: buffer_ptr.splits)
  have "unat (dv_size w1) < unat (dv_capacity w1)"
    using room sz w1(2,3) by simp
  from DSCVector_push_back_store_room [OF w1(4) this, of ch x] obtain w' where w':
    "DSCVector_push_back_store ch w1 x = Inr (dsc_set_error DSC_ERROR_NONE ch, Some w')"
    "unat (dv_size w') = Suc (unat (dv_size w1))" "dv_capacity w' = dv_capacity w1"
    by blast
  have "DSCVector_push_back True ch (Some w) x = Inr (dsc_set_error DSC_ERROR_NONE ch, Some w')"
    using full n w1(1) w'(1) by (simp add: DSCVector_push_back_def)
  then show ?thesis
    using w'(2,3) w1(2,3) un by simp
qed

lemma DSCVector_insert_grows:
  assumes wf: "DSCVector_wf w" and full: "dv_capacity w \<le> dv_size w"
    and two: "2 \<le> unat (dv_capacity w)" and fit: "3 * unat (dv_capacity w) div 2 < 2 ^ 32"
    and q: "q \<le> dv_size w"
  shows "\<exists>ch' w'. DSCVector_insert True ch (Some w) q x = Inr (ch', Some w', q)
    \<and> unat (dv_capacity w') = 3 * unat (dv_capacity w) div 2
    \<and> unat (dv_size w') = Suc (unat (dv_size w))"
proof -
  have "3 * unat (dv_capacity w) < 2 ^ 34"
    using unsigned_less [of "dv_capacity w", where 'a = nat] by simp
  moreover have "(2 :: nat) ^ 34 < 2 ^ 53"
    by simp
  ultimately have ex: "3 * unat (dv_capacity w) < 2 ^ 53"
    by linarith
  with fit have n: "times_1_5 (dv_capacity w) = Inr (of_nat (3 * unat (dv_capacity w) div 2))"
    by (simp add: times_1_5_def)
  let ?n = "of_nat (3 * unat (dv_capacity w) div 2) :: 32 word"
  have un: "unat ?n = 3 * unat (dv_capacity w) div 2"
    using n by (rule times_1_5_unat)
  have le: "unat (dv_capacity w) \<le> unat ?n" and room: "unat (dv_capacity w) < unat ?n"
    and pos: "0 < unat ?n"
    using grown_room [OF two] un by simp_all
  from DSCVector_resize_granted [OF wf le pos, of ch] obtain w1 where w1:
    "DSCVector_resize True ch w ?n = Inr (ch, w1, True)"
    "dv_size w1 = dv_size w" "dv_capacity w1 = ?n" "DSCVector_wf w1"
    by blast
  from wf full have sz: "unat (dv_size w) = unat (dv_capacity w)"
    by (auto simp: DSCVector_wf_def word_le_nat_alt split: buffer_ptr.splits)
  have lt: "unat (dv_size w1) < unat (dv_capacity w1)"
    using room sz w1(2,3) by simp
  have q1: "unat q \<le> unat (dv_size w1)"
    using q w1(2) by (simp add: word_le_nat_alt)
  from DSCVector_insert_store_room [OF w1(4) q1 lt, of ch x] obtain w' where w':
    "DSCVector_insert_store ch w1 q x = Inr (dsc_set_error DSC_ERROR_NONE ch, Some w', q)"
    "unat (dv_size w') = Suc (unat (dv_size w1))" "dv_capacity w' = dv_capacity w1"
    by blast
  have nq: "\<not> dv_size w < q"
    using q by (simp add: not_less)
  have "DSCVector_insert True ch (Some w) q x = Inr (dsc_set_error DSC_ERROR_NONE ch, Some w', q)"
    using full nq n w1(1) w'(1) by (simp add: DSCVector_insert_def)
  then show ?thesis
    using w'(2,3) w1(2,3) un by simp
qed


text \<open>From capacity 1 the vector does not grow, and the store overruns the buffer.\<close>

lemma growth_from_capacity_one:
  "dsc_vector_push_back True ch
      (Some \<lparr>vt_values = Block [Some 1], vt_size = 1, vt_capacity = 1\<rparr>) x
    = Inl (Store_out_of_bounds 1)
   \<and> DSCVector_push_back True ch
      (Some \<lparr>dv_values = Block [Some 1], dv_size = 1, dv_capacity = 1\<rparr>) x
    = Inl (Store_out_of_bounds 1)"
  by (simp add: eval_defs)


text \<open>
  C5. When \<^verbatim>\<open>dsc_vector_push_back\<close> or \<^verbatim>\<open>dsc_vector_insert\<close> returns, the capacity it
  leaves is the old capacity times 1.5, truncated, if the vector was full (its size had
  reached its capacity) and the allocation was granted, and the old capacity otherwise.
  And it does return with that capacity, the element added: on a well-formed full
  vector of capacity at least 2, with the allocation granted, the position of an insert
  within the size, and the capacity in the range where \<^verbatim>\<open>capacity * 1.5\<close> is exact and
  fits the integer type. This holds in both implementations.
\<close>

theorem growth_factor:
  "(dsc_vector_push_back ok ch (Some v) x = Inr (ch', Some v') \<longrightarrow>
      unat (vt_capacity v') =
        (if vt_capacity v \<le> vt_size v \<and> ok then 3 * unat (vt_capacity v) div 2
         else unat (vt_capacity v)))
   \<and> (dsc_vector_insert ok ch (Some v) p x = Inr (ch', Some v', r) \<longrightarrow>
      unat (vt_capacity v') =
        (if p \<le> vt_size v \<and> vt_capacity v \<le> vt_size v \<and> ok
         then 3 * unat (vt_capacity v) div 2 else unat (vt_capacity v)))
   \<and> (DSCVector_push_back ok ch (Some w) x = Inr (ch', Some w') \<longrightarrow>
      unat (dv_capacity w') =
        (if dv_capacity w \<le> dv_size w \<and> ok then 3 * unat (dv_capacity w) div 2
         else unat (dv_capacity w)))
   \<and> (DSCVector_insert ok ch (Some w) q x = Inr (ch', Some w', r') \<longrightarrow>
      unat (dv_capacity w') =
        (if q \<le> dv_size w \<and> dv_capacity w \<le> dv_size w \<and> ok
         then 3 * unat (dv_capacity w) div 2 else unat (dv_capacity w)))
   \<and> (dsc_vector_wf v \<and> vt_capacity v \<le> vt_size v \<and> 2 \<le> unat (vt_capacity v)
        \<and> 3 * unat (vt_capacity v) < 2 ^ 53 \<longrightarrow>
      (\<exists>ch1 v1. dsc_vector_push_back True ch (Some v) x = Inr (ch1, Some v1)
         \<and> unat (vt_capacity v1) = 3 * unat (vt_capacity v) div 2
         \<and> unat (vt_size v1) = Suc (unat (vt_size v))))
   \<and> (dsc_vector_wf v \<and> vt_capacity v \<le> vt_size v \<and> 2 \<le> unat (vt_capacity v)
        \<and> 3 * unat (vt_capacity v) < 2 ^ 53 \<and> p \<le> vt_size v \<longrightarrow>
      (\<exists>ch1 v1. dsc_vector_insert True ch (Some v) p x = Inr (ch1, Some v1, p)
         \<and> unat (vt_capacity v1) = 3 * unat (vt_capacity v) div 2
         \<and> unat (vt_size v1) = Suc (unat (vt_size v))))
   \<and> (DSCVector_wf w \<and> dv_capacity w \<le> dv_size w \<and> 2 \<le> unat (dv_capacity w)
        \<and> 3 * unat (dv_capacity w) div 2 < 2 ^ 32 \<longrightarrow>
      (\<exists>ch1 w1. DSCVector_push_back True ch (Some w) x = Inr (ch1, Some w1)
         \<and> unat (dv_capacity w1) = 3 * unat (dv_capacity w) div 2
         \<and> unat (dv_size w1) = Suc (unat (dv_size w))))
   \<and> (DSCVector_wf w \<and> dv_capacity w \<le> dv_size w \<and> 2 \<le> unat (dv_capacity w)
        \<and> 3 * unat (dv_capacity w) div 2 < 2 ^ 32 \<and> q \<le> dv_size w \<longrightarrow>
      (\<exists>ch1 w1. DSCVector_insert True ch (Some w) q x = Inr (ch1, Some w1, q)
         \<and> unat (dv_capacity w1) = 3 * unat (dv_capacity w) div 2
         \<and> unat (dv_size w1) = Suc (unat (dv_size w))))"
proof (intro conjI impI)
  assume "dsc_vector_push_back ok ch (Some v) x = Inr (ch', Some v')"
  then show "unat (vt_capacity v') =
      (if vt_capacity v \<le> vt_size v \<and> ok then 3 * unat (vt_capacity v) div 2
       else unat (vt_capacity v))"
    by (rule dsc_vector_push_back_capacity)
next
  assume "dsc_vector_insert ok ch (Some v) p x = Inr (ch', Some v', r)"
  then show "unat (vt_capacity v') =
      (if p \<le> vt_size v \<and> vt_capacity v \<le> vt_size v \<and> ok
       then 3 * unat (vt_capacity v) div 2 else unat (vt_capacity v))"
    by (rule dsc_vector_insert_capacity)
next
  assume "DSCVector_push_back ok ch (Some w) x = Inr (ch', Some w')"
  then show "unat (dv_capacity w') =
      (if dv_capacity w \<le> dv_size w \<and> ok then 3 * unat (dv_capacity w) div 2
       else unat (dv_capacity w))"
    by (rule DSCVector_push_back_capacity)
next
  assume "DSCVector_insert ok ch (Some w) q x = Inr (ch', Some w', r')"
  then show "unat (dv_capacity w') =
      (if q \<le> dv_size w \<and> dv_capacity w \<le> dv_size w \<and> ok
       then 3 * unat (dv_capacity w) div 2 else unat (dv_capacity w))"
    by (rule DSCVector_insert_capacity)
next
  assume "dsc_vector_wf v \<and> vt_capacity v \<le> vt_size v \<and> 2 \<le> unat (vt_capacity v)
    \<and> 3 * unat (vt_capacity v) < 2 ^ 53"
  then show "\<exists>ch1 v1. dsc_vector_push_back True ch (Some v) x = Inr (ch1, Some v1)
    \<and> unat (vt_capacity v1) = 3 * unat (vt_capacity v) div 2
    \<and> unat (vt_size v1) = Suc (unat (vt_size v))"
    by (intro dsc_vector_push_back_grows) simp_all
next
  assume "dsc_vector_wf v \<and> vt_capacity v \<le> vt_size v \<and> 2 \<le> unat (vt_capacity v)
    \<and> 3 * unat (vt_capacity v) < 2 ^ 53 \<and> p \<le> vt_size v"
  then show "\<exists>ch1 v1. dsc_vector_insert True ch (Some v) p x = Inr (ch1, Some v1, p)
    \<and> unat (vt_capacity v1) = 3 * unat (vt_capacity v) div 2
    \<and> unat (vt_size v1) = Suc (unat (vt_size v))"
    by (intro dsc_vector_insert_grows) simp_all
next
  assume "DSCVector_wf w \<and> dv_capacity w \<le> dv_size w \<and> 2 \<le> unat (dv_capacity w)
    \<and> 3 * unat (dv_capacity w) div 2 < 2 ^ 32"
  then show "\<exists>ch1 w1. DSCVector_push_back True ch (Some w) x = Inr (ch1, Some w1)
    \<and> unat (dv_capacity w1) = 3 * unat (dv_capacity w) div 2
    \<and> unat (dv_size w1) = Suc (unat (dv_size w))"
    by (intro DSCVector_push_back_grows) simp_all
next
  assume "DSCVector_wf w \<and> dv_capacity w \<le> dv_size w \<and> 2 \<le> unat (dv_capacity w)
    \<and> 3 * unat (dv_capacity w) div 2 < 2 ^ 32 \<and> q \<le> dv_size w"
  then show "\<exists>ch1 w1. DSCVector_insert True ch (Some w) q x = Inr (ch1, Some w1, q)
    \<and> unat (dv_capacity w1) = 3 * unat (dv_capacity w) div 2
    \<and> unat (dv_size w1) = Suc (unat (dv_size w))"
    by (intro DSCVector_insert_grows) simp_all
qed

theorem growth_factor_witness:
  "dsc_vector_wf \<lparr>vt_values = Block [Some 1, Some 2, Some 3, Some 4], vt_size = 4,
       vt_capacity = 4\<rparr>
   \<and> DSCVector_wf \<lparr>dv_values = Block [Some 1, Some 2, Some 3, Some 4], dv_size = 4,
       dv_capacity = 4\<rparr>
   \<and> (4 :: 64 word) \<le> 4 \<and> 2 \<le> unat (4 :: 64 word) \<and> 3 * unat (4 :: 64 word) < 2 ^ 53
   \<and> (1 :: 64 word) \<le> 4
   \<and> (4 :: 32 word) \<le> 4 \<and> 2 \<le> unat (4 :: 32 word)
   \<and> 3 * unat (4 :: 32 word) div 2 < 2 ^ 32 \<and> (1 :: 32 word) \<le> 4
   \<and> dsc_vector_push_back True \<lparr>slot = DSC_ERROR_NOT_FOUND, writes = 0\<rparr>
      (Some \<lparr>vt_values = Block [Some 1, Some 2, Some 3, Some 4], vt_size = 4,
             vt_capacity = 4\<rparr>) 5
    = Inr (\<lparr>slot = DSC_ERROR_NONE, writes = 1\<rparr>,
        Some \<lparr>vt_values = Block [Some 1, Some 2, Some 3, Some 4, Some 5, None], vt_size = 5,
              vt_capacity = 6\<rparr>)
   \<and> dsc_vector_insert True \<lparr>slot = DSC_ERROR_NOT_FOUND, writes = 0\<rparr>
      (Some \<lparr>vt_values = Block [Some 1, Some 2, Some 3, Some 4], vt_size = 4,
             vt_capacity = 4\<rparr>) 1 5
    = Inr (\<lparr>slot = DSC_ERROR_NONE, writes = 1\<rparr>,
        Some \<lparr>vt_values = Block [Some 1, Some 5, Some 2, Some 3, Some 4, None], vt_size = 5,
              vt_capacity = 6\<rparr>, 1)
   \<and> DSCVector_push_back True \<lparr>slot = DSC_ERROR_NOT_FOUND, writes = 0\<rparr>
      (Some \<lparr>dv_values = Block [Some 1, Some 2, Some 3, Some 4], dv_size = 4,
             dv_capacity = 4\<rparr>) 5
    = Inr (\<lparr>slot = DSC_ERROR_NONE, writes = 1\<rparr>,
        Some \<lparr>dv_values = Block [Some 1, Some 2, Some 3, Some 4, Some 5, None], dv_size = 5,
              dv_capacity = 6\<rparr>)
   \<and> DSCVector_insert True \<lparr>slot = DSC_ERROR_NOT_FOUND, writes = 0\<rparr>
      (Some \<lparr>dv_values = Block [Some 1, Some 2, Some 3, Some 4], dv_size = 4,
             dv_capacity = 4\<rparr>) 1 5
    = Inr (\<lparr>slot = DSC_ERROR_NONE, writes = 1\<rparr>,
        Some \<lparr>dv_values = Block [Some 1, Some 5, Some 2, Some 3, Some 4, None], dv_size = 5,
              dv_capacity = 6\<rparr>, 1)
   \<and> unat (6 :: 64 word) = 3 * unat (4 :: 64 word) div 2
   \<and> unat (6 :: 32 word) = 3 * unat (4 :: 32 word) div 2"
  using
    growth_factor
      [where ok = True and ch = "\<lparr>slot = DSC_ERROR_NOT_FOUND, writes = 0\<rparr>" and x = 5
         and ch' = "\<lparr>slot = DSC_ERROR_NONE, writes = 1\<rparr>" and p = 1 and q = 1
         and v = "\<lparr>vt_values = Block [Some 1, Some 2, Some 3, Some 4], vt_size = 4,
                   vt_capacity = 4\<rparr>"
         and v' = "\<lparr>vt_values = Block [Some 1, Some 2, Some 3, Some 4, Some 5, None],
                    vt_size = 5, vt_capacity = 6\<rparr>"
         and w = "\<lparr>dv_values = Block [Some 1, Some 2, Some 3, Some 4], dv_size = 4,
                   dv_capacity = 4\<rparr>"
         and w' = "\<lparr>dv_values = Block [Some 1, Some 2, Some 3, Some 4, Some 5, None],
                    dv_size = 5, dv_capacity = 6\<rparr>"]
    growth_factor
      [where ok = True and ch = "\<lparr>slot = DSC_ERROR_NOT_FOUND, writes = 0\<rparr>" and x = 5
         and ch' = "\<lparr>slot = DSC_ERROR_NONE, writes = 1\<rparr>" and p = 1 and r = 1
         and q = 1 and r' = 1
         and v = "\<lparr>vt_values = Block [Some 1, Some 2, Some 3, Some 4], vt_size = 4,
                   vt_capacity = 4\<rparr>"
         and v' = "\<lparr>vt_values = Block [Some 1, Some 5, Some 2, Some 3, Some 4, None],
                    vt_size = 5, vt_capacity = 6\<rparr>"
         and w = "\<lparr>dv_values = Block [Some 1, Some 2, Some 3, Some 4], dv_size = 4,
                   dv_capacity = 4\<rparr>"
         and w' = "\<lparr>dv_values = Block [Some 1, Some 5, Some 2, Some 3, Some 4, None],
                    dv_size = 5, dv_capacity = 6\<rparr>"]
  by (simp add: eval_defs dsc_vector_wf_def DSCVector_wf_def word_le_nat_alt word_less_nat_alt)

subsection \<open>The capacity never decreases\<close>

lemma dsc_vector_call_capacity:
  assumes "dsc_vector_call ok c ch (Some v) = Inr (ch', Some v', r)"
  shows "vt_capacity v \<le> vt_capacity v' \<and> (\<not> may_resize c \<longrightarrow> vt_capacity v' = vt_capacity v)"
proof (cases c)
  case (Push_back x)
  with assms have "dsc_vector_push_back ok ch (Some v) x = Inr (ch', Some v')"
    by (auto split: sum.splits)
  from dsc_vector_push_back_capacity [OF this] show ?thesis
    using Push_back by (auto simp: word_le_nat_alt split: if_splits)
next
  case (Insert p x)
  with assms obtain r' where "dsc_vector_insert ok ch (Some v) (of_nat p) x = Inr (ch', Some v', r')"
    by (auto split: sum.splits)
  from dsc_vector_insert_capacity [OF this] show ?thesis
    using Insert by (auto simp: word_le_nat_alt split: if_splits)
next
  case (Reserve n)
  with assms have *: "dsc_vector_reserve ok ch (Some v) (of_nat n) = Inr (ch', Some v')"
    by (auto split: sum.splits)
  show ?thesis
  proof (cases "of_nat n \<le> vt_capacity v")
    case True
    with * Reserve show ?thesis by (simp add: dsc_vector_reserve_def)
  next
    case False
    with * obtain ch1 v1 where r: "dsc_vector_resize ok ch v (of_nat n) = Inr (ch1, v1)"
      and "v' = v1"
      by (auto simp: dsc_vector_reserve_def split: sum.splits if_splits)
    with dsc_vector_resize_cases [OF r] False Reserve show ?thesis by auto
  qed
qed (use assms in \<open>auto simp: vt_defs Let_def split: sum.splits if_splits prod.splits option.splits\<close>)

lemma DSCVector_call_capacity:
  assumes "DSCVector_call ok c ch (Some v) = Inr (ch', Some v', r)"
  shows "dv_capacity v \<le> dv_capacity v' \<and> (\<not> may_resize c \<longrightarrow> dv_capacity v' = dv_capacity v)"
proof (cases c)
  case (Push_back x)
  with assms have "DSCVector_push_back ok ch (Some v) x = Inr (ch', Some v')"
    by (auto split: sum.splits)
  from DSCVector_push_back_capacity [OF this] show ?thesis
    using Push_back by (auto simp: word_le_nat_alt split: if_splits)
next
  case (Insert p x)
  with assms obtain r' where "DSCVector_insert ok ch (Some v) (of_nat p) x = Inr (ch', Some v', r')"
    by (auto split: sum.splits)
  from DSCVector_insert_capacity [OF this] show ?thesis
    using Insert by (auto simp: word_le_nat_alt split: if_splits)
next
  case (Reserve n)
  with assms have *: "DSCVector_reserve ok ch (Some v) (of_nat n) = Inr (ch', Some v')"
    by (auto split: sum.splits)
  show ?thesis
  proof (cases "of_nat n \<le> dv_capacity v")
    case True
    with * Reserve show ?thesis by (simp add: DSCVector_reserve_def)
  next
    case False
    with * obtain ch1 v1 resized where r: "DSCVector_resize ok ch v (of_nat n) = Inr (ch1, v1, resized)"
      and "v' = v1"
      by (auto simp: DSCVector_reserve_def split: sum.splits if_splits)
    with DSCVector_resize_cases [OF r] False Reserve show ?thesis by auto
  qed
qed (use assms in \<open>auto simp: dv_defs Let_def split: sum.splits if_splits prod.splits option.splits\<close>)


text \<open>
  C9. A call of a vector operation that returns leaves a capacity at least as large as
  the one it found, and the same capacity unless the call is a push_back, an insert
  or a reserve (the callers of \<^verbatim>\<open>dsc_vector_resize\<close>); so pop_back and erase leave the
  capacity unchanged. This holds in both implementations.
\<close>

theorem capacity_never_decreases:
  "(dsc_vector_call ok c ch (Some v) = Inr (ch', Some v', r) \<longrightarrow>
      vt_capacity v \<le> vt_capacity v'
      \<and> (\<not> may_resize c \<longrightarrow> vt_capacity v' = vt_capacity v))
   \<and> (DSCVector_call ok c ch (Some w) = Inr (ch'', Some w', r') \<longrightarrow>
      dv_capacity w \<le> dv_capacity w'
      \<and> (\<not> may_resize c \<longrightarrow> dv_capacity w' = dv_capacity w))"
proof (intro conjI impI)
  assume "dsc_vector_call ok c ch (Some v) = Inr (ch', Some v', r)"
  note * = dsc_vector_call_capacity [OF this]
  from * show "vt_capacity v \<le> vt_capacity v'" by simp
  from * show "vt_capacity v' = vt_capacity v" if "\<not> may_resize c" using that by simp
next
  assume "DSCVector_call ok c ch (Some w) = Inr (ch'', Some w', r')"
  note * = DSCVector_call_capacity [OF this]
  from * show "dv_capacity w \<le> dv_capacity w'" by simp
  from * show "dv_capacity w' = dv_capacity w" if "\<not> may_resize c" using that by simp
qed

theorem capacity_never_decreases_witness:
  "dsc_vector_call True (Reserve 8) \<lparr>slot = DSC_ERROR_NOT_FOUND, writes = 0\<rparr>
      (Some \<lparr>vt_values = Block [Some 1, Some 2], vt_size = 2, vt_capacity = 2\<rparr>)
    = Inr (\<lparr>slot = DSC_ERROR_NONE, writes = 1\<rparr>,
        Some \<lparr>vt_values = Block [Some 1, Some 2, None, None, None, None, None, None],
              vt_size = 2, vt_capacity = 8\<rparr>, Ret_void)
   \<and> (2 :: 64 word) \<le> 8
   \<and> DSCVector_call True (Erase 0) \<lparr>slot = DSC_ERROR_NOT_FOUND, writes = 0\<rparr>
      (Some \<lparr>dv_values = Block [Some 1, Some 2], dv_size = 2, dv_capacity = 2\<rparr>)
    = Inr (\<lparr>slot = DSC_ERROR_NONE, writes = 1\<rparr>,
        Some \<lparr>dv_values = Block [Some 2, Some 2], dv_size = 1, dv_capacity = 2\<rparr>, Ret_void)
   \<and> \<not> may_resize (Erase 0)"
  using
    capacity_never_decreases
      [where ok = True and c = "Reserve 8"
         and ch = "\<lparr>slot = DSC_ERROR_NOT_FOUND, writes = 0\<rparr>"
         and v = "\<lparr>vt_values = Block [Some 1, Some 2], vt_size = 2, vt_capacity = 2\<rparr>"
         and ch' = "\<lparr>slot = DSC_ERROR_NONE, writes = 1\<rparr>"
         and v' = "\<lparr>vt_values = Block [Some 1, Some 2, None, None, None, None, None, None],
                    vt_size = 2, vt_capacity = 8\<rparr>"
         and r = Ret_void]
    capacity_never_decreases
      [where ok = True and c = "Erase 0"
         and ch = "\<lparr>slot = DSC_ERROR_NOT_FOUND, writes = 0\<rparr>"
         and w = "\<lparr>dv_values = Block [Some 1, Some 2], dv_size = 2, dv_capacity = 2\<rparr>"
         and ch'' = "\<lparr>slot = DSC_ERROR_NONE, writes = 1\<rparr>"
         and w' = "\<lparr>dv_values = Block [Some 2, Some 2], dv_size = 1, dv_capacity = 2\<rparr>"
         and r' = Ret_void]
  by (simp add: eval_defs)

subsection \<open>Writes of the error slot\<close>














subsection \<open>A refused allocation in push_back and insert\<close>

text \<open>
  C3. In the implementation of \<^verbatim>\<open>struct dsc_vector_t\<close>, a push_back on a well-formed
  full vector whose allocation is refused does not leave the vector as it was: the
  test after \<^verbatim>\<open>dsc_vector_resize\<close> looks at \<^verbatim>\<open>values\<close>, which still points to the old
  buffer, so the code goes on and stores at index \<open>size\<close>, one past the end of the
  buffer.
\<close>

theorem push_back_failed_growth_overruns:
  assumes "dsc_vector_wf v" and "vt_capacity v \<le> vt_size v"
    and "3 * unat (vt_capacity v) < 2 ^ 53"
  shows "dsc_vector_push_back False ch (Some v) x = Inl (Store_out_of_bounds (unat (vt_size v)))"
proof -
  from assms(1) obtain cells where cells: "vt_values v = Block cells"
    and len: "length cells = unat (vt_capacity v)" and le: "vt_size v \<le> vt_capacity v"
    by (auto simp: dsc_vector_wf_def split: buffer_ptr.splits)
  from le assms(2) have "unat (vt_size v) = length cells"
    using len by (simp add: word_le_nat_alt)
  then have "push_back_store (dsc_set_error DSC_ERROR_OUT_OF_MEMORY ch) v x
      = Inl (Store_out_of_bounds (unat (vt_size v)))"
    by (simp add: push_back_store_def store_def cells)
  moreover obtain n where "times_1_5 (vt_capacity v) = Inr n"
    using times_1_5_64_defined [OF assms(3)] by blast
  ultimately show ?thesis
    using assms(2) cells by (simp add: dsc_vector_push_back_def dsc_vector_resize_refused)
qed

theorem push_back_failed_growth_overruns_witness:
  "dsc_vector_wf \<lparr>vt_values = Block [Some 1, Some 2], vt_size = 2, vt_capacity = 2\<rparr>
   \<and> (2 :: 64 word) \<le> 2
   \<and> 3 * unat (2 :: 64 word) < 2 ^ 53
   \<and> dsc_vector_push_back False \<lparr>slot = DSC_ERROR_NONE, writes = 0\<rparr>
      (Some \<lparr>vt_values = Block [Some 1, Some 2], vt_size = 2, vt_capacity = 2\<rparr>) 7
    = Inl (Store_out_of_bounds 2)"
  using push_back_failed_growth_overruns
    [where v = "\<lparr>vt_values = Block [Some 1, Some 2], vt_size = 2, vt_capacity = 2\<rparr>"
       and ch = "\<lparr>slot = DSC_ERROR_NONE, writes = 0\<rparr>" and x = 7]
  by (simp add: dsc_vector_wf_def)

text \<open>
  Where the block happens to have a cell beyond \<open>capacity\<close>, the model shows how the code
  goes on after the store: it increments the size past the capacity and sets \<open>NONE\<close>
  over the \<open>OUT_OF_MEMORY\<close> of \<^verbatim>\<open>dsc_vector_resize\<close>.
\<close>

lemma push_back_failed_growth_with_slack:
  "dsc_vector_push_back False \<lparr>slot = DSC_ERROR_NOT_FOUND, writes = 0\<rparr>
      (Some \<lparr>vt_values = Block [Some 1, Some 2, None], vt_size = 2, vt_capacity = 2\<rparr>) 7
    = Inr (\<lparr>slot = DSC_ERROR_NONE, writes = 2\<rparr>,
        Some \<lparr>vt_values = Block [Some 1, Some 2, Some 7], vt_size = 3, vt_capacity = 2\<rparr>)"
  by (simp add: eval_defs)

text \<open>
  C10. In the implementation of \<^verbatim>\<open>struct dsc_vector_t\<close>, an insert at a valid position
  of a well-formed full vector whose allocation is refused does not return 0: for the
  same reason as in push_back, it goes on and stores at index \<open>size\<close>, one past the end
  of the buffer.
\<close>

theorem insert_failed_growth_overruns:
  assumes "dsc_vector_wf v" and "vt_capacity v \<le> vt_size v" and "p \<le> vt_size v"
    and "3 * unat (vt_capacity v) < 2 ^ 53"
  shows "dsc_vector_insert False ch (Some v) p x = Inl (Store_out_of_bounds (unat (vt_size v)))"
proof -
  from assms(1) obtain cells where cells: "vt_values v = Block cells"
    and len: "length cells = unat (vt_capacity v)" and le: "vt_size v \<le> vt_capacity v"
    by (auto simp: dsc_vector_wf_def split: buffer_ptr.splits)
  from le assms(2) have full: "unat (vt_size v) = length cells"
    using len by (simp add: word_le_nat_alt)
  have "shift_right (Block cells) (length cells) (unat p) = Inl (Store_out_of_bounds (length cells))
      \<or> (unat p = length cells
          \<and> shift_right (Block cells) (length cells) (unat p) = Inr (Block cells))"
    using assms(3) full
    by (subst (1 2) shift_right.simps) (auto simp: load_def store_def word_le_nat_alt)
  then have "insert_store (dsc_set_error DSC_ERROR_OUT_OF_MEMORY ch) v p x
      = Inl (Store_out_of_bounds (unat (vt_size v)))"
    by (auto simp: insert_store_def store_def cells full)
  moreover obtain n where "times_1_5 (vt_capacity v) = Inr n"
    using times_1_5_64_defined [OF assms(4)] by blast
  ultimately show ?thesis
    using assms(2,3) cells by (simp add: dsc_vector_insert_def dsc_vector_resize_refused not_less)
qed

theorem insert_failed_growth_overruns_witness:
  "dsc_vector_wf \<lparr>vt_values = Block [Some 1, Some 2], vt_size = 2, vt_capacity = 2\<rparr>
   \<and> (2 :: 64 word) \<le> 2
   \<and> (0 :: 64 word) \<le> 2
   \<and> 3 * unat (2 :: 64 word) < 2 ^ 53
   \<and> dsc_vector_insert False \<lparr>slot = DSC_ERROR_NONE, writes = 0\<rparr>
      (Some \<lparr>vt_values = Block [Some 1, Some 2], vt_size = 2, vt_capacity = 2\<rparr>) 0 7
    = Inl (Store_out_of_bounds 2)"
  using insert_failed_growth_overruns
    [where v = "\<lparr>vt_values = Block [Some 1, Some 2], vt_size = 2, vt_capacity = 2\<rparr>"
       and p = 0 and ch = "\<lparr>slot = DSC_ERROR_NONE, writes = 0\<rparr>" and x = 7]
  by (simp add: dsc_vector_wf_def)

text \<open>
  Whenever an insert returns, in either implementation, it returns its position
  argument if it leaves \<open>NONE\<close> in the error slot, and 0 otherwise.
\<close>

lemma DSCVector_insert_returns:
  assumes "DSCVector_insert ok ch h p x = Inr (ch', h', r)"
  shows "r = (if slot ch' = DSC_ERROR_NONE then p else 0)"
  using assms
  by (auto simp: DSCVector_insert_def DSCVector_insert_store_def dsc_set_error_def
      split: option.splits sum.splits if_splits dest!: DSCVector_resize_cases)

lemma dsc_vector_insert_returns:
  assumes "dsc_vector_insert ok ch h p x = Inr (ch', h', r)"
  shows "r = (if slot ch' = DSC_ERROR_NONE then p else 0)"
  using assms
  by (auto simp: dsc_vector_insert_def insert_store_def dsc_set_error_def
      split: option.splits sum.splits if_splits dest!: dsc_vector_resize_cases)


subsection \<open>The hash set\<close>

text \<open>
  C4. \<^verbatim>\<open>dsc_set_create\<close> returns a set of 16 empty buckets, size 0 and capacity 16,
  with \<open>NONE\<close> in its error field and in the error slot; when the allocation fails it
  returns the null handle and sets \<open>OUT_OF_MEMORY\<close>.
\<close>

theorem dsc_set_create_initial:
  "dsc_set_create True ch
     = (dsc_set_error DSC_ERROR_NONE ch,
        Some \<lparr>set_buckets = replicate 16 [], set_capacity = 16, set_size = 0,
              set_error = DSC_ERROR_NONE\<rparr>)
   \<and> DSC_SET_INITIAL_CAPACITY = 16
   \<and> dsc_set_create False ch = (dsc_set_error DSC_ERROR_OUT_OF_MEMORY ch, None)"
  by (simp add: dsc_set_create_def DSC_SET_INITIAL_CAPACITY_def)

lemma load_le_iff:
  "0 < cap \<Longrightarrow> set_load n cap \<le> DSC_SET_LOAD_FACTOR \<longleftrightarrow> 4 * n \<le> 3 * cap"
proof -
  assume "0 < cap"
  then have "(of_int n / of_int cap \<le> (3 / 4 :: rat)) = (of_int n * 4 \<le> (3 :: rat) * of_int cap)"
    by (simp add: field_simps)
  also have "\<dots> = (of_int (4 * n) \<le> (of_int (3 * cap) :: rat))"
    by (simp add: mult.commute)
  also have "\<dots> = (4 * n \<le> 3 * cap)"
    by (simp only: of_int_le_iff)
  finally show ?thesis
    by (simp add: set_load_def DSC_SET_LOAD_FACTOR_def)
qed

lemma set_reachable_load:
  assumes "2 \<le> growth" and "set_reachable growth s"
  shows "0 < set_capacity s \<and> set_load (set_size s) (set_capacity s) \<le> DSC_SET_LOAD_FACTOR"
  using assms(2)
proof (induction rule: set_reachable.induct)
  case (created ch ch' s)
  then show ?case
    by (auto simp: dsc_set_create_def DSC_SET_INITIAL_CAPACITY_def set_load_def
        DSC_SET_LOAD_FACTOR_def split: if_splits)
next
  case (added s ok_buckets ok_entry ch key ch' s')
  then have pos: "0 < set_capacity s" and le: "4 * set_size s \<le> 3 * set_capacity s"
    by (auto simp: load_le_iff)
  show ?case
  proof (cases "s' = s")
    case True
    with added show ?thesis by simp
  next
    case False
    show ?thesis
    proof (cases "DSC_SET_LOAD_FACTOR < set_load (set_size s + 1) (set_capacity s)")
      case True
      with added.hyps(2) False have cap: "set_capacity s' = growth * set_capacity s"
        and sz: "set_size s' = set_size s + 1"
        by (auto simp: dsc_set_add_def Let_def split: if_splits)
      have a: "2 * set_capacity s \<le> set_capacity s'"
        using assms(1) pos by (simp add: cap mult_right_mono)
      have "4 * (set_size s + 1) \<le> 3 * (2 * set_capacity s)"
        using le pos by presburger
      then have b: "4 * set_size s' \<le> 3 * (2 * set_capacity s)"
        by (simp add: sz)
      from a b pos have "0 < set_capacity s' \<and> 4 * set_size s' \<le> 3 * set_capacity s'"
        by linarith
      then show ?thesis by (simp add: load_le_iff)
    next
      case F: False
      with added.hyps(2) False have cap: "set_capacity s' = set_capacity s"
        and sz: "set_size s' = set_size s + 1"
        by (auto simp: dsc_set_add_def Let_def split: if_splits)
      with F pos show ?thesis by (simp add: not_less)
    qed
  qed
next
  case (removed s ch key ch' s')
  then have pos: "0 < set_capacity s" and le: "4 * set_size s \<le> 3 * set_capacity s"
    by (auto simp: load_le_iff)
  from removed.hyps(2) have "set_capacity s' = set_capacity s \<and> set_size s' \<le> set_size s"
    by (auto simp: dsc_set_remove_def Let_def split: if_splits)
  with pos le show ?case by (simp add: load_le_iff)
qed


text \<open>
  On the sets that the operations can produce, the bucket array has \<open>capacity\<close> chains
  and the hash of every key is an index into it.
\<close>

lemma length_link_head: "length (link_head bs i key) = length bs"
  by (simp add: link_head_def)

lemma length_rehash: "length (dsc_set_rehash bs c) = nat c"
proof -
  have "length (fold (\<lambda>key bs. link_head bs (set_hash key c) key) ks bs0) = length bs0"
    for ks and bs0 :: "int list list"
    by (induction ks arbitrary: bs0) (simp_all add: length_link_head)
  then show ?thesis
    by (simp add: dsc_set_rehash_def)
qed

lemma set_reachable_buckets:
  "set_reachable growth s \<Longrightarrow> length (set_buckets s) = nat (set_capacity s)"
proof (induction rule: set_reachable.induct)
  case (created ch ch' s)
  then show ?case
    by (auto simp: dsc_set_create_def split: if_splits)
next
  case (added s ok_buckets ok_entry ch key ch' s')
  then show ?case
    by (auto simp: dsc_set_add_def Let_def length_link_head length_rehash split: if_splits)
next
  case (removed s ch key ch' s')
  then show ?case
    by (auto simp: dsc_set_remove_def Let_def split: if_splits)
qed

lemma set_reachable_index:
  assumes "2 \<le> growth" and "set_reachable growth s"
  shows "set_hash key (set_capacity s) < length (set_buckets s)"
proof -
  have "0 < set_capacity s"
    using set_reachable_load [OF assms] by simp
  then have "nat (key mod set_capacity s) < nat (set_capacity s)"
    by simp
  then show ?thesis
    using set_reachable_buckets [OF assms(2)] by (simp add: set_hash_def)
qed

text \<open>
  C1. For a growth factor of at least 2 and every hash set that the operations can
  produce, after an add that succeeds the size divided by the capacity is at most
  the load factor 0.75; and when the load after the insertion would exceed it, the add
  has grown the table: the capacity is the old one times the growth factor, and the
  buckets are the rehashed ones with the new key linked at the head of its chain.
\<close>

theorem dsc_set_add_load_factor:
  assumes "2 \<le> growth" and "set_reachable growth s"
    and "dsc_set_add growth ok_buckets ok_entry ch (Some s) key = (ch', Some s')"
    and "slot ch' = DSC_ERROR_NONE"
  shows "set_load (set_size s') (set_capacity s') \<le> DSC_SET_LOAD_FACTOR
    \<and> (DSC_SET_LOAD_FACTOR < set_load (set_size s + 1) (set_capacity s) \<longrightarrow>
         set_capacity s' = growth * set_capacity s \<and> set_capacity s < set_capacity s'
         \<and> set_buckets s'
             = link_head (dsc_set_rehash (set_buckets s) (set_capacity s'))
                 (set_hash key (set_capacity s')) key)"
proof -
  have "set_reachable growth s'"
    using assms(2,3) by (rule set_reachable.added)
  then have first: "set_load (set_size s') (set_capacity s') \<le> DSC_SET_LOAD_FACTOR"
    using set_reachable_load [OF assms(1)] by blast
  have pos: "0 < set_capacity s"
    using set_reachable_load [OF assms(1,2)] by blast
  have "set_capacity s < growth * set_capacity s"
    using assms(1) pos by (simp add: mult_less_cancel_right1) 
  then show ?thesis
    using first assms(3,4)
    by (auto simp: dsc_set_add_def dsc_set_error_def Let_def split: if_splits)
qed

lemma set_reachable_adds:
  "set_reachable g s \<Longrightarrow>
   snd (fold (\<lambda>k (ch, h). dsc_set_add g True True ch h k) ks (ch, Some s)) = Some s' \<Longrightarrow>
   set_reachable g s'"
proof (induction ks arbitrary: s ch)
  case Nil
  then show ?case by simp
next
  case (Cons k ks)
  obtain ch1 s1 where step: "dsc_set_add g True True ch (Some s) k = (ch1, Some s1)"
    by (cases "dsc_set_add g True True ch (Some s) k")
      (auto simp: dsc_set_add_def Let_def split: if_splits)
  then have "set_reachable g s1"
    using Cons.prems(1) set_reachable.added by blast
  then show ?case
    using Cons.IH [of s1 ch1] Cons.prems(2) step by simp
qed

lemma created_reachable:
  "set_reachable g \<lparr>set_buckets = replicate 16 [], set_capacity = 16, set_size = 0,
      set_error = DSC_ERROR_NONE\<rparr>"
  by (rule set_reachable.created [of "\<lparr>slot = DSC_ERROR_NONE, writes = 0\<rparr>"])
    (simp add: dsc_set_create_def DSC_SET_INITIAL_CAPACITY_def)


lemma twelve_reachable:
  "set_reachable 2
     \<lparr>set_buckets = [[], [1], [2], [3], [4], [5], [6], [7], [8], [9], [10], [11], [12], [], [], []],
      set_capacity = 16, set_size = 12, set_error = DSC_ERROR_NONE\<rparr>"
proof (rule set_reachable_adds [OF created_reachable])
  show "snd (fold (\<lambda>k (ch, h). dsc_set_add 2 True True ch h k)
          [1, 2, 3, 4, 5, 6, 7, 8, 9, 10, 11, 12]
          (\<lparr>slot = DSC_ERROR_NONE, writes = 0\<rparr>,
           Some \<lparr>set_buckets = replicate 16 [], set_capacity = 16, set_size = 0,
                 set_error = DSC_ERROR_NONE\<rparr>))
      = Some \<lparr>set_buckets =
                 [[], [1], [2], [3], [4], [5], [6], [7], [8], [9], [10], [11], [12], [], [], []],
               set_capacity = 16, set_size = 12, set_error = DSC_ERROR_NONE\<rparr>"
    by code_simp
qed

text \<open>
  The scenario of the specification: the thirteenth add to a fresh set exceeds the load
  factor (13 / 16) and doubles the capacity.
\<close>

theorem dsc_set_add_load_factor_witness:
  "(2 :: int) \<le> 2
   \<and> set_reachable 2
     \<lparr>set_buckets = [[], [1], [2], [3], [4], [5], [6], [7], [8], [9], [10], [11], [12], [], [], []],
      set_capacity = 16, set_size = 12, set_error = DSC_ERROR_NONE\<rparr>
   \<and> dsc_set_add 2 True True \<lparr>slot = DSC_ERROR_NOT_FOUND, writes = 0\<rparr>
       (Some \<lparr>set_buckets = [[], [1], [2], [3], [4], [5], [6], [7], [8], [9], [10], [11], [12], [], [], []],
          set_capacity = 16, set_size = 12, set_error = DSC_ERROR_NONE\<rparr>) 13
     = (\<lparr>slot = DSC_ERROR_NONE, writes = 1\<rparr>,
        Some \<lparr>set_buckets = [[], [1], [2], [3], [4], [5], [6], [7], [8], [9], [10], [11], [12],
            [13], [], [], [], [], [], [], [], [], [], [], [], [], [], [], [], [], [], []],
          set_capacity = 32, set_size = 13, set_error = DSC_ERROR_NONE\<rparr>)
   \<and> DSC_SET_LOAD_FACTOR < set_load (12 + 1) 16
   \<and> set_load 13 32 \<le> DSC_SET_LOAD_FACTOR"
proof -
  have add: "dsc_set_add 2 True True \<lparr>slot = DSC_ERROR_NOT_FOUND, writes = 0\<rparr>
       (Some \<lparr>set_buckets = [[], [1], [2], [3], [4], [5], [6], [7], [8], [9], [10], [11], [12], [], [], []],
          set_capacity = 16, set_size = 12, set_error = DSC_ERROR_NONE\<rparr>) 13
     = (\<lparr>slot = DSC_ERROR_NONE, writes = 1\<rparr>,
        Some \<lparr>set_buckets = [[], [1], [2], [3], [4], [5], [6], [7], [8], [9], [10], [11], [12],
            [13], [], [], [], [], [], [], [], [], [], [], [], [], [], [], [], [], [], []],
          set_capacity = 32, set_size = 13, set_error = DSC_ERROR_NONE\<rparr>)"
    by code_simp
  have over: "DSC_SET_LOAD_FACTOR < set_load (12 + 1) 16"
    by (simp add: DSC_SET_LOAD_FACTOR_def set_load_def)
  have two: "(2 :: int) \<le> 2"
    by simp
  from dsc_set_add_load_factor [OF two twelve_reachable add]
  have "set_load 13 32 \<le> DSC_SET_LOAD_FACTOR"
    by simp
  with two twelve_reachable add over show ?thesis
    by simp
qed

subsection \<open>The two implementations compared\<close>



















text \<open>
  The two creates give vectors that are alike, when their allocations are granted and
  the fresh struct of \<^verbatim>\<open>struct dsc_vector_t\<close> reads as null.
\<close>

lemma creates_alike:
  assumes "unat ca = unat cb"
    and "DSCVector_create ca True True ch = (ch', Some a)"
  shows "\<exists>b. dsc_vector_create cb True True True ch = Inr (ch', Some b) \<and> alike a b"
proof -
  have "unat cb < 2 ^ 32"
    using assms(1) unsigned_less [of ca, where 'a = nat] by simp
  then have "\<not> SIZE_MAX div sizeof_int < unat cb"
    by (simp add: SIZE_MAX_def sizeof_int_def)
  then have "dsc_vector_create cb True True True ch
    = Inr (dsc_set_error DSC_ERROR_NONE ch,
        Some \<lparr>vt_values = Block (replicate (unat cb) None), vt_size = 0, vt_capacity = cb\<rparr>)"
    by (simp add: dsc_vector_create_def dsc_vector_resize_def malloc_def Let_def)
  moreover have "a = \<lparr>dv_values = Block (replicate (unat ca) None), dv_size = 0, dv_capacity = ca\<rparr>"
    and "ch' = dsc_set_error DSC_ERROR_NONE ch"
    using assms(2) by (auto simp: DSCVector_create_def malloc_def Let_def)
  ultimately show ?thesis
    using assms(1)
    by (simp add: alike_def DSCVector_wf_def dsc_vector_wf_def DSCVector_contents_def
        dsc_vector_contents_def)
qed




end
